theory Spec2Isabelle
  imports Complex_Main "HOL-Library.Multiset"
begin

section \<open>Data model (lib/graffiti.ts)\<close>

text \<open>
  A JavaScript number is an IEEE 754 double. The finite doubles are real numbers, and a
  number of the program is modelled as the \<^typ>\<open>real\<close> it is; its arithmetic is defined
  below (\<open>js_times\<close> and the like), each operation with the rounding of the doubles.
  Comparisons of doubles are the comparisons of the reals. Strings are \<^typ>\<open>string\<close>.
  The two fields of \<open>Position\<close> and of \<open>Dimensions\<close> carry a prefix, since a record field
  is a constant and \<open>x\<close>, \<open>y\<close>, \<open>width\<close> and \<open>height\<close> are wanted as variable names.
\<close>

record Position =
  pos_x :: real
  pos_y :: real

record Dimensions =
  dim_width :: real
  dim_height :: real

text \<open>
  \<open>GraffitiItem = GraffitiImage | GraffitiText\<close>, a union tagged by the field \<open>type\<close>.
  The fields \<open>id\<close>, \<open>text\<close> and \<open>size\<close> are the selectors \<open>item_id\<close>, \<open>item_text\<close> and
  \<open>text_size\<close> (\<open>id\<close> and \<open>size\<close> are constants of HOL, \<open>text\<close> is a keyword).
\<close>

datatype GraffitiItem =
    GraffitiImage (item_id: string) (imageUrl: string) (position: Position)
      (dimensions: Dimensions) (rotation: real) (opacity: real) (createdAt: string)
  | GraffitiText (item_id: string) (item_text: string) (font: string) (color: string)
      (position: Position) (text_size: real) (rotation: real) (opacity: real)
      (createdAt: string)

text \<open>\<open>NewGraffitiItem\<close>: an item without \<open>id\<close> and \<open>createdAt\<close>.\<close>

datatype NewGraffitiItem =
    NewGraffitiImage string Position Dimensions real real
  | NewGraffitiText string string string Position real real real

text \<open>What the program throws: \<open>JSON.parse\<close>'s error, a schema's error, any other \<open>Error\<close>.\<close>

datatype error =
    SyntaxError
  | ZodError string
  | Error string

type_synonym 'a result = "error + 'a"

section \<open>Overlays (lib/graffiti.ts, sharp)\<close>

text \<open>
  The SVG document \<open>textOverlaySvg\<close> builds, as a structure: the numbers it prints into
  the text are kept as numbers. \<open>g_rotate\<close> is \<open>rotate(rotation centerX centerY)\<close>, a
  \<open>tspan\<close> is its \<open>x\<close>, its \<open>y\<close> and its escaped line.
\<close>

record svg =
  svg_width :: nat
  svg_height :: nat
  g_opacity :: real
  g_rotate :: "real \<times> real \<times> real"
  font_family :: string
  font_size :: real
  fill :: string
  tspans :: "(real \<times> real \<times> string) list"

text \<open>\<open>sharp.OverlayOptions\<close>: an SVG buffer, or a raster buffer with \<open>left\<close> and \<open>top\<close>.\<close>

datatype overlay = TextOverlay svg | ImageOverlay string int int

text \<open>\<open>sharp.Metadata\<close>, of which the program reads \<open>width\<close> and \<open>height\<close>.\<close>

record metadata =
  md_width :: "nat option"
  md_height :: "nat option"

section \<open>The runtime and the disk\<close>

text \<open>
  What the program takes from its runtime and its libraries is a parameter of the model,
  one record of functions:
  \<^item> \<open>cwd\<close> is \<open>process.cwd()\<close>;
  \<^item> \<open>localeCompare\<close> is \<open>String.prototype.localeCompare\<close>;
  \<^item> \<open>Date_parse\<close> is \<open>Date.parse\<close>, \<open>None\<close> for \<open>NaN\<close>;
  \<^item> \<open>base64_decode\<close> is \<open>Buffer.from(s, "base64")\<close>;
  \<^item> \<open>z_url\<close> is the check of \<open>z.string().url()\<close>;
  \<^item> \<open>fetch\<close> gives the body of a response that is \<open>ok\<close>, \<open>None\<close> when \<open>fetch\<close> throws
    or the response is not \<open>ok\<close>;
  \<^item> \<open>sharp_metadata\<close> is \<open>sharp(input).metadata()\<close>, \<open>None\<close> when it rejects;
  \<^item> \<open>sharp_overlay bytes w h rotation opacity\<close> is the pipeline
    \<open>sharp(bytes).resize(w, h, contain).rotate(rotation).ensureAlpha(opacity).png().toBuffer()\<close>,
    giving \<open>data\<close>, \<open>info.width\<close> and \<open>info.height\<close>, \<open>None\<close> when it rejects;
  \<^item> \<open>sharp_composite background overlays\<close> is
    \<open>sharp(background).composite(overlays).png().toBuffer()\<close>, \<open>None\<close> when it rejects.
\<close>

record env =
  cwd :: string
  localeCompare :: "string \<Rightarrow> string \<Rightarrow> int"
  Date_parse :: "string \<Rightarrow> int option"
  base64_decode :: "string \<Rightarrow> string"
  z_url :: "string \<Rightarrow> bool"
  fetch :: "string \<Rightarrow> string option"
  sharp_metadata :: "string \<Rightarrow> metadata option"
  sharp_overlay :: "string \<Rightarrow> int \<Rightarrow> int \<Rightarrow> real \<Rightarrow> real \<Rightarrow> (string \<times> nat \<times> nat) option"
  sharp_composite :: "string \<Rightarrow> overlay list \<Rightarrow> string option"

text \<open>
  The content of \<open>DATA_FILE\<close>: no file, a file that \<open>JSON.parse\<close> (or the \<open>sort\<close> call on
  its result) throws on, or the JSON text of an array of items. \<open>JSON.stringify\<close> followed
  by \<open>JSON.parse\<close> gives the array back, so the file holds the array itself.
\<close>

datatype data_file = Absent | Malformed | Stored "GraffitiItem list"

text \<open>
  The disk: \<open>DATA_FILE\<close>, and every other file by its absolute path. Failures of the
  file system other than a missing file (permissions, a full disk) are not modelled.
  Two fields record what a call did and hold no data of the program: \<open>fs_reads\<close> lists
  the paths \<open>loadImageSource\<close> gave to \<open>fs.readFile\<close>, \<open>composite_calls\<close> counts the
  calls of \<open>composite\<close>.
\<close>

record world =
  DATA_FILE :: data_file
  files :: "string \<rightharpoonup> string"
  fs_reads :: "string list"
  composite_calls :: nat

section \<open>Strings and paths (String.prototype, node:path)\<close>

definition startsWith :: "string \<Rightarrow> string \<Rightarrow> bool" where
  "startsWith s p = (take (length p) s = p)"

definition strip_prefix :: "string \<Rightarrow> string \<Rightarrow> string option" where
  "strip_prefix p s = (if startsWith s p then Some (drop (length p) s) else None)"

text \<open>\<open>s.replaceAll(c, r)\<close> for a pattern of one character.\<close>

definition replaceAll :: "char \<Rightarrow> string \<Rightarrow> string \<Rightarrow> string" where
  "replaceAll c r s = concat (map (\<lambda>d. if d = c then r else [d]) s)"

definition escapeXml :: "string \<Rightarrow> string" where
  "escapeXml v =
     replaceAll (CHR 0x27) ''&apos;''
       (replaceAll (CHR 0x22) ''&quot;''
         (replaceAll CHR ''>'' ''&gt;''
           (replaceAll CHR ''<'' ''&lt;''
             (replaceAll CHR ''&'' ''&amp;'' v))))"

text \<open>\<open>s.split(c)\<close> for a separator of one character: never the empty list.\<close>

fun split_char :: "char \<Rightarrow> string \<Rightarrow> string list" where
  "split_char c [] = [[]]"
| "split_char c (d # ds) =
     (if d = c then [] # split_char c ds
      else (case split_char c ds of seg # segs \<Rightarrow> (d # seg) # segs | [] \<Rightarrow> [[d]]))"

text \<open>\<open>s.split(/\r?\n/)\<close>; \<open>cur\<close> is the line read so far.\<close>

fun split_lines :: "string \<Rightarrow> string \<Rightarrow> string list" where
  "split_lines cur [] = [cur]"
| "split_lines cur (c # cs) =
     (if c = CHR 0x0A then cur # split_lines [] cs
      else (case cs of
              d # ds \<Rightarrow>
                if c = CHR 0x0D \<and> d = CHR 0x0A then cur # split_lines [] ds
                else split_lines (cur @ [c]) cs
            | [] \<Rightarrow> split_lines (cur @ [c]) cs))"

fun join_with :: "string \<Rightarrow> string list \<Rightarrow> string" where
  "join_with sep [] = []"
| "join_with sep [s] = s"
| "join_with sep (s # t # ts) = s @ sep @ join_with sep (t # ts)"

text \<open>
  \<open>normalizeString\<close> of node:path on the segments of a path: empty segments and \<open>.\<close> are
  dropped, \<open>..\<close> removes the segment before it; above the root \<open>..\<close> is dropped, or kept
  when \<open>allowAboveRoot\<close>. \<open>stack\<close> holds the result so far, last segment first.
\<close>

fun normalize_segs :: "bool \<Rightarrow> string list \<Rightarrow> string list \<Rightarrow> string list" where
  "normalize_segs allowAboveRoot stack [] = rev stack"
| "normalize_segs allowAboveRoot stack (seg # segs) =
     (if seg = [] \<or> seg = ''.'' then normalize_segs allowAboveRoot stack segs
      else if seg = ''..'' then
        (case stack of
           [] \<Rightarrow> normalize_segs allowAboveRoot (if allowAboveRoot then [''..''] else []) segs
         | prev # below \<Rightarrow>
             if prev = ''..'' then normalize_segs allowAboveRoot (''..'' # stack) segs
             else normalize_segs allowAboveRoot below segs)
      else normalize_segs allowAboveRoot (seg # stack) segs)"

definition normalizeString :: "string \<Rightarrow> bool \<Rightarrow> string" where
  "normalizeString p allowAboveRoot =
     join_with ''/'' (normalize_segs allowAboveRoot [] (split_char CHR ''/'' p))"

definition isAbsolute :: "string \<Rightarrow> bool" where
  "isAbsolute p = startsWith p ''/''"

text \<open>\<open>path.normalize\<close> and \<open>path.join\<close> (posix).\<close>

definition path_normalize :: "string \<Rightarrow> string" where
  "path_normalize p =
     (if p = [] then ''.''
      else
        let trailingSeparator = (last p = CHR ''/'');
            q = normalizeString p (\<not> isAbsolute p)
        in if q = [] then (if isAbsolute p then ''/'' else if trailingSeparator then ''./'' else ''.'')
           else (if isAbsolute p then ''/'' else []) @ q @ (if trailingSeparator then ''/'' else []))"

definition path_join :: "string list \<Rightarrow> string" where
  "path_join args =
     (let joined = join_with ''/'' (filter (\<lambda>a. a \<noteq> []) args)
      in if joined = [] then ''.'' else path_normalize joined)"

text \<open>
  \<open>path.resolve\<close> (posix): the arguments are taken from the right, up to the first
  absolute one; \<open>process.cwd()\<close> stands before the first argument.
\<close>

fun resolve_loop :: "string list \<Rightarrow> string \<Rightarrow> string \<times> bool" where
  "resolve_loop [] resolvedPath = (resolvedPath, False)"
| "resolve_loop (p # ps) resolvedPath =
     (if p = [] then resolve_loop ps resolvedPath
      else if isAbsolute p then (p @ ''/'' @ resolvedPath, True)
      else resolve_loop ps (p @ ''/'' @ resolvedPath))"

definition path_resolve :: "env \<Rightarrow> string list \<Rightarrow> string" where
  "path_resolve e args =
     (case resolve_loop (rev args @ [cwd e]) [] of
        (resolvedPath, resolvedAbsolute) \<Rightarrow>
          let q = normalizeString resolvedPath (\<not> resolvedAbsolute)
          in if resolvedAbsolute then ''/'' @ q else if q \<noteq> [] then q else ''.'')"

text \<open>\<open>String(n)\<close> for an integer: its decimal digits.\<close>

fun digits_of :: "nat \<Rightarrow> string" where
  "digits_of n =
     (if n < 10 then [''0123456789'' ! n]
      else digits_of (n div 10) @ [''0123456789'' ! (n mod 10)])"

definition String_of_int :: "int \<Rightarrow> string" where
  "String_of_int i = (if i < 0 then ''-'' @ digits_of (nat (- i)) else digits_of (nat i))"

section \<open>The arithmetic of doubles (IEEE 754 binary64)\<close>

text \<open>
  An operation on doubles gives the double nearest to the exact result, and of two
  nearest ones the one whose significand is even. The doubles around a real \<open>v\<close> are
  the integer multiples of \<open>pow2 (ulp_exponent v)\<close>: a significand has 53 bits, so the
  unit is 52 binary places below the leading bit of \<open>v\<close>, and never below \<open>pow2 (- 1074)\<close>,
  the unit of the subnormal doubles. \<open>to_double\<close> is this rounding. Where IEEE 754
  gives an infinity, for a result of magnitude \<open>pow2 1024\<close> or more, \<open>to_double\<close> gives the
  real; the products of the tools stay below 100.
\<close>

definition pow2 :: "int \<Rightarrow> real" where
  "pow2 k = (if 0 \<le> k then 2 ^ nat k else 1 / 2 ^ nat (- k))"

definition round_half_even :: "real \<Rightarrow> int" where
  "round_half_even v =
     (let n = \<lfloor>v\<rfloor> in
      if v - of_int n < 1 / 2 then n
      else if 1 / 2 < v - of_int n then n + 1
      else if even n then n else n + 1)"

definition ulp_exponent :: "real \<Rightarrow> int" where
  "ulp_exponent v = max (\<lfloor>log 2 \<bar>v\<bar>\<rfloor> - 52) (- 1074)"

definition to_double :: "real \<Rightarrow> real" where
  "to_double v =
     (if v = 0 then 0
      else of_int (round_half_even (v / pow2 (ulp_exponent v))) * pow2 (ulp_exponent v))"

text \<open>The operators \<open>*\<close>, \<open>/\<close>, \<open>+\<close> and \<open>-\<close> on numbers; no divisor of the program is 0.\<close>

definition js_times :: "real \<Rightarrow> real \<Rightarrow> real" where
  "js_times a b = to_double (a * b)"

definition js_divide :: "real \<Rightarrow> real \<Rightarrow> real" where
  "js_divide a b = to_double (a / b)"

definition js_plus :: "real \<Rightarrow> real \<Rightarrow> real" where
  "js_plus a b = to_double (a + b)"

definition js_minus :: "real \<Rightarrow> real \<Rightarrow> real" where
  "js_minus a b = to_double (a - b)"

text \<open>
  \<open>Math.round\<close>: the integer nearest to a double, a half goes up. The result is exact:
  no rounding of the sum is involved.
\<close>

definition Math_round :: "real \<Rightarrow> int" where
  "Math_round v = \<lfloor>v + 1 / 2\<rfloor>"

section \<open>Strings, continued\<close>

text \<open>The character classes of the regular expressions, and ASCII case folding.\<close>

definition is_alnum :: "char \<Rightarrow> bool" where
  "is_alnum c \<longleftrightarrow>
     c \<in> set ''abcdefghijklmnopqrstuvwxyzABCDEFGHIJKLMNOPQRSTUVWXYZ0123456789''"

definition toLowerCase :: "string \<Rightarrow> string" where
  "toLowerCase s =
     map (\<lambda>c. case map_of (zip ''ABCDEFGHIJKLMNOPQRSTUVWXYZ'' ''abcdefghijklmnopqrstuvwxyz'') c of
               Some l \<Rightarrow> l | None \<Rightarrow> c) s"

text \<open>
  The two regular expressions on data URLs,
  \<open>/^data:image\/(\w+);base64,(.+)$/\<close> with \<open>extra = ''_''\<close> and
  \<open>/^data:image\/[a-zA-Z0-9.+-]+;base64,(.+)$/\<close> with \<open>extra = ''.+-''\<close>. The class does not
  hold \<open>;\<close>, so the first group is the longest run of the class. \<open>.\<close> matches no line
  terminator; of those, \<open>\n\<close> and \<open>\r\<close> are characters of \<^typ>\<open>char\<close>. The result is the
  two groups.
\<close>

definition match_data_url :: "string \<Rightarrow> string \<Rightarrow> (string \<times> string) option" where
  "match_data_url extra s =
     (case strip_prefix ''data:image/'' s of
        None \<Rightarrow> None
      | Some rest \<Rightarrow>
          let subtype = takeWhile (\<lambda>c. is_alnum c \<or> c \<in> set extra) rest;
              after = dropWhile (\<lambda>c. is_alnum c \<or> c \<in> set extra) rest
          in if subtype = [] then None
             else (case strip_prefix '';base64,'' after of
                     None \<Rightarrow> None
                   | Some payload \<Rightarrow>
                       if payload = [] \<or> CHR 0x0A \<in> set payload \<or> CHR 0x0D \<in> set payload
                       then None else Some (subtype, payload)))"

section \<open>Array.prototype.sort with a comparator\<close>

text \<open>
  ECMAScript requires \<open>sort\<close> to be stable, and fixes its result when the comparator is
  consistent; the result is then the one of a stable insertion sort. \<open>insort_cmp\<close> puts
  an element, which stood before all of \<open>bs\<close>, in front of the first element that does
  not compare smaller than it.
\<close>

fun insort_cmp :: "('a \<Rightarrow> 'a \<Rightarrow> int) \<Rightarrow> 'a \<Rightarrow> 'a list \<Rightarrow> 'a list" where
  "insort_cmp cmp a [] = [a]"
| "insort_cmp cmp a (b # bs) =
     (if cmp a b \<le> 0 then a # b # bs else b # insort_cmp cmp a bs)"

definition Array_sort :: "('a \<Rightarrow> 'a \<Rightarrow> int) \<Rightarrow> 'a list \<Rightarrow> 'a list" where
  "Array_sort cmp xs = foldr (insort_cmp cmp) xs []"

text \<open>
  A consistent comparator: the sign of \<open>cmp a b\<close> is opposite to the sign of \<open>cmp b a\<close>,
  and "not greater" is transitive. ECMAScript requires \<open>localeCompare\<close> to be one.
\<close>

definition consistent_comparator :: "('a \<Rightarrow> 'a \<Rightarrow> int) \<Rightarrow> bool" where
  "consistent_comparator cmp \<longleftrightarrow>
     (\<forall>a b. (cmp a b < 0) = (0 < cmp b a)) \<and>
     (\<forall>a b c. cmp a b \<le> 0 \<and> cmp b c \<le> 0 \<longrightarrow> cmp a c \<le> 0)"

section \<open>The item store (lib/graffiti.ts)\<close>

definition PUBLIC_DIR :: "env \<Rightarrow> string" where
  "PUBLIC_DIR e = path_join [cwd e, ''public'']"

definition UPLOAD_DIR :: "env \<Rightarrow> string" where
  "UPLOAD_DIR e = path_join [cwd e, ''public'', ''uploads'']"

definition SNAPSHOT_DIR :: "env \<Rightarrow> string" where
  "SNAPSHOT_DIR e = path_join [UPLOAD_DIR e, ''snapshots'']"

definition BACKGROUND_CANDIDATES :: "string list" where
  "BACKGROUND_CANDIDATES = [''leftys-bg.png'', ''bathroom-wall.jpg'', ''bathroom-wall.png'']"

text \<open>
  \<open>ensureDataFile\<close>: creates the directory, and writes \<open>[]\<close> when \<open>DATA_FILE\<close> cannot be
  accessed.
\<close>

definition ensureDataFile :: "world \<Rightarrow> world" where
  "ensureDataFile w = (if DATA_FILE w = Absent then w\<lparr>DATA_FILE := Stored []\<rparr> else w)"

definition by_createdAt :: "env \<Rightarrow> GraffitiItem \<Rightarrow> GraffitiItem \<Rightarrow> int" where
  "by_createdAt e a b = localeCompare e (createdAt a) (createdAt b)"

text \<open>
  \<open>getGraffiti\<close>: the result, and the disk after the call. The \<open>Absent\<close> case of the
  \<open>case\<close> cannot occur after \<open>ensureDataFile\<close>; there \<open>readFile\<close> would throw.
\<close>

definition getGraffiti :: "env \<Rightarrow> world \<Rightarrow> GraffitiItem list result \<times> world" where
  "getGraffiti e w =
     (let w1 = ensureDataFile w in
      case DATA_FILE w1 of
        Stored parsed \<Rightarrow> (Inr (Array_sort (by_createdAt e) parsed), w1)
      | Malformed \<Rightarrow> (Inl SyntaxError, w1)
      | Absent \<Rightarrow> (Inl (Error ''ENOENT''), w1))"

text \<open>
  \<open>addGraffiti\<close>. The value of \<open>randomUUID()\<close> and the one of \<open>new Date().toISOString()\<close>
  are the arguments \<open>uuid\<close> and \<open>now\<close>.
\<close>

fun stamp :: "NewGraffitiItem \<Rightarrow> string \<Rightarrow> string \<Rightarrow> GraffitiItem" where
  "stamp (NewGraffitiImage url pos dims rot opa) uuid now =
     GraffitiImage uuid url pos dims rot opa now"
| "stamp (NewGraffitiText txt fnt col pos sz rot opa) uuid now =
     GraffitiText uuid txt fnt col pos sz rot opa now"

definition addGraffiti ::
  "env \<Rightarrow> string \<Rightarrow> string \<Rightarrow> NewGraffitiItem \<Rightarrow> world \<Rightarrow> GraffitiItem result \<times> world" where
  "addGraffiti e uuid now item w =
     (let next = stamp item uuid now in
      case getGraffiti e w of
        (Inl err, w1) \<Rightarrow> (Inl err, w1)
      | (Inr existing, w1) \<Rightarrow> (Inr next, w1\<lparr>DATA_FILE := Stored (existing @ [next])\<rparr>))"

text \<open>
  \<open>saveImageBlob\<close>; \<open>uuid\<close> is the value of its \<open>randomUUID()\<close>. The result is the URL of
  the file written.
\<close>

definition saveImageBlob :: "env \<Rightarrow> string \<Rightarrow> string \<Rightarrow> world \<Rightarrow> string \<times> world" where
  "saveImageBlob e uuid base64OrDataUrl w =
     (let dataUrlMatch = match_data_url ''_'' base64OrDataUrl;
          ext = (case dataUrlMatch of Some (g1, g2) \<Rightarrow> g1 | None \<Rightarrow> ''png'');
          base64 = (case dataUrlMatch of Some (g1, g2) \<Rightarrow> g2 | None \<Rightarrow> base64OrDataUrl);
          fileName = uuid @ ''.'' @ ext;
          outPath = path_join [UPLOAD_DIR e, fileName]
      in (''/uploads/'' @ fileName,
          w\<lparr>files := (files w)(outPath \<mapsto> base64_decode e base64)\<rparr>))"

text \<open>The items a disk holds: none when there is no file yet.\<close>

definition stored_items :: "world \<Rightarrow> GraffitiItem list" where
  "stored_items w = (case DATA_FILE w of Stored xs \<Rightarrow> xs | _ \<Rightarrow> [])"

section \<open>Concurrent calls of addGraffiti\<close>

text \<open>
  An \<open>async\<close> function runs until its next \<open>await\<close>; there another call may run. One call
  of \<open>addGraffiti\<close> is therefore a sequence of steps, here one for each operation on
  \<open>DATA_FILE\<close>: \<open>fs.access\<close>, \<open>fs.writeFile\<close> of \<open>[]\<close>, \<open>fs.readFile\<close> (with the parsing,
  the sort and the \<open>push\<close> that follow it without an \<open>await\<close>), and the last
  \<open>fs.writeFile\<close>. A \<open>call\<close> is the place a call of \<open>addGraffiti\<close> has reached; \<open>next\<close> is
  built before the first \<open>await\<close>.

  A step is one operation taken whole. \<open>fs.writeFile\<close> is not: it truncates the file and
  then writes, so that a read between the two sees an empty or a partial file. The
  program therefore has the runs of this model, in which no operation overlaps
  another, and more; a run in which the calls are made in turn has no two operations
  at one time, and is a run of both.
\<close>

datatype call =
    AtAccess GraffitiItem
  | AtCreate GraffitiItem
  | AtRead GraffitiItem
  | AtWrite GraffitiItem "GraffitiItem list"
  | Returned GraffitiItem
  | Threw error

fun call_step :: "env \<Rightarrow> call \<Rightarrow> world \<Rightarrow> call \<times> world" where
  "call_step e (AtAccess next) w =
     (if DATA_FILE w = Absent then (AtCreate next, w) else (AtRead next, w))"
| "call_step e (AtCreate next) w = (AtRead next, w\<lparr>DATA_FILE := Stored []\<rparr>)"
| "call_step e (AtRead next) w =
     (case DATA_FILE w of
        Stored parsed \<Rightarrow> (AtWrite next (Array_sort (by_createdAt e) parsed @ [next]), w)
      | Malformed \<Rightarrow> (Threw SyntaxError, w)
      | Absent \<Rightarrow> (Threw (Error ''ENOENT''), w))"
| "call_step e (AtWrite next existing) w = (Returned next, w\<lparr>DATA_FILE := Stored existing\<rparr>)"
| "call_step e (Returned next) w = (Returned next, w)"
| "call_step e (Threw err) w = (Threw err, w)"

text \<open>
  A schedule names, step by step, the call that runs; a name out of range runs nothing.
\<close>

fun run :: "env \<Rightarrow> nat list \<Rightarrow> call list \<times> world \<Rightarrow> call list \<times> world" where
  "run e [] s = s"
| "run e (i # sched) (calls, w) =
     (if i < length calls
      then (case call_step e (calls ! i) w of
              (c, w1) \<Rightarrow> run e sched (calls[i := c], w1))
      else run e sched (calls, w))"

text \<open>The calls one after the other: each returns before the next one starts.\<close>

fun addGraffiti_each ::
  "env \<Rightarrow> (string \<times> string \<times> NewGraffitiItem) list \<Rightarrow> world \<Rightarrow> world" where
  "addGraffiti_each e [] w = w"
| "addGraffiti_each e ((uuid, now, item) # rest) w =
     addGraffiti_each e rest (snd (addGraffiti e uuid now item w))"

text \<open>
  The schedule of \<open>n\<close> calls in turn: the four steps of the first call, then those of
  the second, and so on. \<open>started\<close> are the calls at their start, one for each triple
  of a generated id, a time and an input.
\<close>

definition serial_schedule :: "nat \<Rightarrow> nat list" where
  "serial_schedule n = concat (map (\<lambda>i. [i, i, i, i]) [0 ..< n])"

definition started :: "(string \<times> string \<times> NewGraffitiItem) list \<Rightarrow> call list" where
  "started inputs = map (\<lambda>(uuid, now, item). AtAccess (stamp item uuid now)) inputs"

section \<open>The tools (mcp/routes.ts)\<close>

text \<open>
  The schemas: \<open>percent\<close>, \<open>rotation\<close>, \<open>opacity\<close> and the \<open>size\<close> of \<open>sprayTextSchema\<close>. A
  field with a default is optional in the arguments of a tool.
\<close>

definition percent :: "real \<Rightarrow> bool" where
  "percent v \<longleftrightarrow> 0 \<le> v \<and> v \<le> 100"

definition rotation_schema :: "real option \<Rightarrow> real result" where
  "rotation_schema v =
     (case v of None \<Rightarrow> Inr 0
      | Some r \<Rightarrow> if - 360 \<le> r \<and> r \<le> 360 then Inr r else Inl (ZodError ''rotation''))"

definition opacity_schema :: "real option \<Rightarrow> real result" where
  "opacity_schema v =
     (case v of None \<Rightarrow> Inr 1
      | Some r \<Rightarrow> if 0 \<le> r \<and> r \<le> 1 then Inr r else Inl (ZodError ''opacity''))"

definition size_schema :: "real option \<Rightarrow> real result" where
  "size_schema v =
     (case v of None \<Rightarrow> Inr 42
      | Some r \<Rightarrow> if 8 \<le> r \<and> r \<le> 300 then Inr r else Inl (ZodError ''size''))"

definition positionSchema :: "Position \<Rightarrow> bool" where
  "positionSchema p \<longleftrightarrow> percent (pos_x p) \<and> percent (pos_y p)"

definition dimensionsSchema :: "Dimensions \<Rightarrow> bool" where
  "dimensionsSchema d \<longleftrightarrow> percent (dim_width d) \<and> percent (dim_height d)"

record normalized_pair =
  first :: real
  second :: real
  normalized :: bool

definition fractionRange :: "real \<Rightarrow> bool" where
  "fractionRange v \<longleftrightarrow> v \<ge> 0 \<and> v < 1"

definition normalizePercentPair :: "real \<Rightarrow> real \<Rightarrow> normalized_pair" where
  "normalizePercentPair a b =
     (let shouldNormalize = fractionRange a \<and> fractionRange b in
      if \<not> shouldNormalize then \<lparr>first = a, second = b, normalized = False\<rparr>
      else \<lparr>first = js_times a 100, second = js_times b 100, normalized = True\<rparr>)"

text \<open>The arguments of \<open>spray_text\<close> and of \<open>spray_image\<close>, as the caller sends them.\<close>

record spray_text_args =
  st_text :: string
  st_font :: "string option"
  st_color :: "string option"
  st_position :: Position
  st_size :: "real option"
  st_rotation :: "real option"
  st_opacity :: "real option"

record spray_image_args =
  si_image_url :: "string option"
  si_image_blob :: "string option"
  si_position :: Position
  si_dimensions :: Dimensions
  si_rotation :: "real option"
  si_opacity :: "real option"

text \<open>
  \<open>spray_text\<close>: the check of the arguments against \<open>sprayTextSchema\<close>, which the server
  makes before it calls the handler, and the handler. The result is the text of the
  answer.
\<close>

definition spray_text ::
  "env \<Rightarrow> string \<Rightarrow> string \<Rightarrow> spray_text_args \<Rightarrow> world \<Rightarrow> string result \<times> world" where
  "spray_text e uuid now args w =
     (if length (st_text args) < 1 then (Inl (ZodError ''text''), w)
      else if \<not> positionSchema (st_position args) then (Inl (ZodError ''position''), w)
      else case size_schema (st_size args) of Inl err \<Rightarrow> (Inl err, w) | Inr sz \<Rightarrow>
           case rotation_schema (st_rotation args) of Inl err \<Rightarrow> (Inl err, w) | Inr rot \<Rightarrow>
           case opacity_schema (st_opacity args) of Inl err \<Rightarrow> (Inl err, w) | Inr opa \<Rightarrow>
        let fnt = (case st_font args of None \<Rightarrow> ''Impact, sans-serif'' | Some f \<Rightarrow> f);
            col = (case st_color args of None \<Rightarrow> ''#111111'' | Some c \<Rightarrow> c);
            normalizedPosition =
              normalizePercentPair (pos_x (st_position args)) (pos_y (st_position args))
        in case addGraffiti e uuid now
                  (NewGraffitiText (st_text args) fnt col
                     \<lparr>pos_x = first normalizedPosition, pos_y = second normalizedPosition\<rparr>
                     sz rot opa) w of
             (Inl err, w1) \<Rightarrow> (Inl err, w1)
           | (Inr item, w1) \<Rightarrow>
               (Inr (if normalized normalizedPosition
                     then ''spray_text created '' @ item_id item @
                          '' (normalized 0-1 position fractions to 0-100 percentages)''
                     else ''spray_text created '' @ item_id item), w1))"

text \<open>
  \<open>spray_image\<close>: the check against \<open>sprayImageSchema\<close>, then the handler, which starts
  with \<open>sprayImageInput.parse\<close>. \<open>file_uuid\<close> is the value of \<open>randomUUID()\<close> in
  \<open>saveImageBlob\<close>. After the \<open>refine\<close> one of the two sources is there, so the last case
  of the choice of \<open>imageUrl\<close> does not occur.
\<close>

definition spray_image ::
  "env \<Rightarrow> string \<Rightarrow> string \<Rightarrow> string \<Rightarrow> spray_image_args \<Rightarrow> world \<Rightarrow> string result \<times> world" where
  "spray_image e file_uuid uuid now args w =
     (if (case si_image_url args of Some u \<Rightarrow> \<not> z_url e u | None \<Rightarrow> False)
      then (Inl (ZodError ''image_url''), w)
      else if \<not> positionSchema (si_position args) then (Inl (ZodError ''position''), w)
      else if \<not> dimensionsSchema (si_dimensions args) then (Inl (ZodError ''dimensions''), w)
      else case rotation_schema (si_rotation args) of Inl err \<Rightarrow> (Inl err, w) | Inr rot \<Rightarrow>
           case opacity_schema (si_opacity args) of Inl err \<Rightarrow> (Inl err, w) | Inr opa \<Rightarrow>
        if \<not> ((case si_image_url args of Some u \<Rightarrow> u \<noteq> [] | None \<Rightarrow> False) \<or>
                (case si_image_blob args of Some b \<Rightarrow> b \<noteq> [] | None \<Rightarrow> False))
        then (Inl (ZodError ''Provide image_url or image_blob''), w)
        else
          let normalizedPosition =
                normalizePercentPair (pos_x (si_position args)) (pos_y (si_position args));
              normalizedDimensions =
                normalizePercentPair (dim_width (si_dimensions args))
                  (dim_height (si_dimensions args))
          in case (case si_image_url args of
                     Some u \<Rightarrow> Inr (u, w)
                   | None \<Rightarrow>
                       (case si_image_blob args of
                          Some b \<Rightarrow> Inr (saveImageBlob e file_uuid b w)
                        | None \<Rightarrow> Inl (Error ''image_blob is undefined''))) of
               Inl err \<Rightarrow> (Inl err, w)
             | Inr (url, w0) \<Rightarrow>
                 (case addGraffiti e uuid now
                    (NewGraffitiImage url
                       \<lparr>pos_x = first normalizedPosition, pos_y = second normalizedPosition\<rparr>
                       \<lparr>dim_width = first normalizedDimensions,
                        dim_height = second normalizedDimensions\<rparr>
                       rot opa) w0 of
                    (Inl err, w1) \<Rightarrow> (Inl err, w1)
                  | (Inr item, w1) \<Rightarrow>
                      (Inr (if normalized normalizedPosition \<or> normalized normalizedDimensions
                            then ''spray_image created '' @ item_id item @
                                 '' (normalized 0-1 fractions to 0-100 percentages)''
                            else ''spray_image created '' @ item_id item), w1)))"

section \<open>The session registry (mcp/routes.ts)\<close>

text \<open>
  A transport and its server are objects; \<open>handle\<close> tells two of them apart, and
  \<open>sessionId\<close> is the field the transport sets when it has handled an \<open>initialize\<close>
  request. The registry is the two maps of \<open>createMcpRouter\<close>; \<open>fresh\<close> is the next
  unused \<open>handle\<close>.
\<close>

record transport =
  handle :: nat
  sessionId :: "string option"

record registry =
  transports :: "string \<rightharpoonup> transport"
  servers :: "string \<rightharpoonup> nat"
  fresh :: nat

datatype http_method = POST | GET | DELETE

text \<open>
  A request: its method, its header \<open>mcp-session-id\<close>, and what \<open>isInitializeRequest\<close>
  says of its body.
\<close>

record request =
  http_method :: http_method
  mcp_session_id :: "string option"
  isInitializeRequest :: bool

datatype response =
    Status400_json string
  | Status400_text string
  | Status500_json string
  | Transport_response
  | Unhandled_rejection string

text \<open>
  What \<open>transport.handleRequest\<close> of the SDK does is a parameter. On a transport made for
  this request it answers and either calls \<open>onsessioninitialized\<close> with the id of
  \<open>sessionIdGenerator\<close> or does not, or it throws. On a registered transport it answers,
  and may call \<open>onclose\<close>, or it throws; the SDK calls \<open>onsessioninitialized\<close> of a
  transport once, while it handles the first \<open>initialize\<close> request.
\<close>

datatype new_outcome = Session_initialized | Not_initialized | New_threw string

datatype live_outcome = Answered | Closed | Live_threw string

record sdk =
  handle_new :: "request \<Rightarrow> new_outcome"
  handle_live :: "transport \<Rightarrow> request \<Rightarrow> live_outcome"

text \<open>\<open>sessionId ? transports.get(sessionId) : undefined\<close>\<close>

definition lookup_transport :: "registry \<Rightarrow> request \<Rightarrow> transport option" where
  "lookup_transport reg req =
     (case mcp_session_id req of
        None \<Rightarrow> None
      | Some sid \<Rightarrow> if sid = [] then None else transports reg sid)"

text \<open>\<open>transport.onclose\<close>\<close>

definition onclose :: "transport \<Rightarrow> registry \<Rightarrow> registry" where
  "onclose t reg =
     (case sessionId t of
        None \<Rightarrow> reg
      | Some sid \<Rightarrow>
          if sid = [] then reg
          else reg\<lparr>transports := (transports reg)(sid := None),
                   servers := (servers reg)(sid := None)\<rparr>)"

text \<open>
  The three routes of \<open>/mcp\<close>. \<open>uuid\<close> is the value \<open>randomUUID()\<close> has when
  \<open>sessionIdGenerator\<close> is called.
\<close>

definition post_mcp :: "sdk \<Rightarrow> string \<Rightarrow> request \<Rightarrow> registry \<Rightarrow> response \<times> registry" where
  "post_mcp k uuid req reg =
     (case lookup_transport reg req of
        None \<Rightarrow>
          if \<not> isInitializeRequest req
          then (Status400_json ''Client must send initialize request first'', reg)
          else
            let server = fresh reg;
                t = \<lparr>handle = Suc (fresh reg), sessionId = None\<rparr>;
                reg1 = reg\<lparr>fresh := Suc (Suc (fresh reg))\<rparr>
            in (case handle_new k req of
                  Session_initialized \<Rightarrow>
                    (Transport_response,
                     reg1\<lparr>transports := (transports reg1)(uuid \<mapsto> t\<lparr>sessionId := Some uuid\<rparr>),
                          servers := (servers reg1)(uuid \<mapsto> server)\<rparr>)
                | Not_initialized \<Rightarrow> (Transport_response, reg1)
                | New_threw msg \<Rightarrow> (Status500_json msg, reg1))
      | Some t \<Rightarrow>
          (case handle_live k t req of
             Answered \<Rightarrow> (Transport_response, reg)
           | Closed \<Rightarrow> (Transport_response, onclose t reg)
           | Live_threw msg \<Rightarrow> (Status500_json msg, reg)))"

definition get_mcp :: "sdk \<Rightarrow> request \<Rightarrow> registry \<Rightarrow> response \<times> registry" where
  "get_mcp k req reg =
     (case lookup_transport reg req of
        None \<Rightarrow> (Status400_text ''No active MCP session.'', reg)
      | Some t \<Rightarrow>
          (case handle_live k t req of
             Answered \<Rightarrow> (Transport_response, reg)
           | Closed \<Rightarrow> (Transport_response, onclose t reg)
           | Live_threw msg \<Rightarrow> (Unhandled_rejection msg, reg)))"

definition delete_mcp :: "sdk \<Rightarrow> request \<Rightarrow> registry \<Rightarrow> response \<times> registry" where
  "delete_mcp k req reg =
     (case lookup_transport reg req of
        None \<Rightarrow> (Status400_text ''No active MCP session.'', reg)
      | Some t \<Rightarrow>
          (case handle_live k t req of
             Answered \<Rightarrow> (Transport_response, reg)
           | Closed \<Rightarrow> (Transport_response, onclose t reg)
           | Live_threw msg \<Rightarrow> (Unhandled_rejection msg, reg)))"

definition mcp_route :: "sdk \<Rightarrow> string \<Rightarrow> request \<Rightarrow> registry \<Rightarrow> response \<times> registry" where
  "mcp_route k uuid req reg =
     (case http_method req of
        POST \<Rightarrow> post_mcp k uuid req reg
      | GET \<Rightarrow> get_mcp k req reg
      | DELETE \<Rightarrow> delete_mcp k req reg)"

text \<open>A client error: a response of status 400.\<close>

fun client_error :: "response \<Rightarrow> bool" where
  "client_error (Status400_json msg) = True"
| "client_error (Status400_text msg) = True"
| "client_error r = False"

section \<open>The snapshot (lib/graffiti.ts)\<close>

record SnapshotResult =
  snapshot_imageUrl :: string
  snapshot_width :: nat
  snapshot_height :: nat
  itemCount :: nat
  skippedImages :: nat
  fromCache :: bool
  snapshotKey :: string

definition percentToPixels :: "real \<Rightarrow> real \<Rightarrow> real" where
  "percentToPixels v sz = js_times (js_divide v 100) sz"

text \<open>
  \<open>resolveBackgroundPath\<close>: the first candidate that \<open>fs.access\<close> finds.
\<close>

definition resolveBackgroundPath :: "env \<Rightarrow> world \<Rightarrow> string result" where
  "resolveBackgroundPath e w =
     (case find (\<lambda>filePath. files w filePath \<noteq> None)
             (map (\<lambda>fileName. path_join [PUBLIC_DIR e, fileName]) BACKGROUND_CANDIDATES) of
        Some filePath \<Rightarrow> Inr filePath
      | None \<Rightarrow>
          Inl (Error (''No background image found in /public. Expected one of: '' @
                      join_with '', '' BACKGROUND_CANDIDATES)))"

text \<open>
  \<open>loadImageSource\<close>: the buffer or \<open>null\<close>, and the disk, where the path given to
  \<open>fs.readFile\<close> is recorded. The three kinds of source are tried in the order of the
  source.
\<close>

definition loadImageSource :: "env \<Rightarrow> string \<Rightarrow> world \<Rightarrow> string option \<times> world" where
  "loadImageSource e url w =
     (case match_data_url ''.+-'' url of
        Some (g0, g1) \<Rightarrow> (Some (base64_decode e g1), w)
      | None \<Rightarrow>
          if startsWith url ''/'' then
            let publicRoot = path_resolve e [PUBLIC_DIR e];
                resolvedPath =
                  path_resolve e [PUBLIC_DIR e, dropWhile (\<lambda>c. c = CHR ''/'') url]
            in if \<not> startsWith resolvedPath (publicRoot @ ''/'') then (None, w)
               else (files w resolvedPath, w\<lparr>fs_reads := fs_reads w @ [resolvedPath]\<rparr>)
          else if startsWith (toLowerCase url) ''http://'' \<or>
                  startsWith (toLowerCase url) ''https://''
          then (fetch e url, w)
          else (None, w))"

definition textOverlaySvg :: "GraffitiItem \<Rightarrow> nat \<Rightarrow> nat \<Rightarrow> svg" where
  "textOverlaySvg item width height =
     (let centerX = percentToPixels (pos_x (position item)) (real width);
          centerY = percentToPixels (pos_y (position item)) (real height);
          lines = split_lines [] (item_text item);
          lineHeight = text_size item;
          startY = js_minus centerY
                     (js_divide (js_times (real (length lines - 1)) lineHeight) 2)
      in \<lparr>svg_width = width, svg_height = height,
          g_opacity = opacity item,
          g_rotate = (rotation item, centerX, centerY),
          font_family = escapeXml (font item),
          font_size = text_size item,
          fill = escapeXml (color item),
          tspans = map (\<lambda>(line, index).
                          (centerX, js_plus startY (js_times (real index) lineHeight),
                           escapeXml line))
                     (zip lines [0 ..< length lines])\<rparr>)"

text \<open>
  The body of the loop over the items: the item gives an overlay, or is skipped, or the
  pipeline of sharp rejects and the snapshot fails.
\<close>

datatype item_outcome = Overlay overlay | Skipped | Failed error

definition item_overlay ::
  "env \<Rightarrow> nat \<Rightarrow> nat \<Rightarrow> GraffitiItem \<Rightarrow> world \<Rightarrow> item_outcome \<times> world" where
  "item_overlay e width height item w =
     (case item of
        GraffitiText i txt fnt col pos sz rot opa created \<Rightarrow>
          (Overlay (TextOverlay (textOverlaySvg item width height)), w)
      | GraffitiImage i url pos dims rot opa created \<Rightarrow>
          (case loadImageSource e url w of
             (None, w1) \<Rightarrow> (Skipped, w1)
           | (Some imageSource, w1) \<Rightarrow>
               let targetWidth = max 1 (Math_round (percentToPixels (dim_width dims) (real width)));
                   targetHeight = max 1 (Math_round (percentToPixels (dim_height dims) (real height)));
                   centerX = percentToPixels (pos_x pos) (real width);
                   centerY = percentToPixels (pos_y pos) (real height)
               in (case sharp_overlay e imageSource targetWidth targetHeight rot opa of
                     None \<Rightarrow> (Failed (Error ''sharp''), w1)
                   | Some (data, info_width, info_height) \<Rightarrow>
                       (Overlay (ImageOverlay data
                                   (Math_round (js_minus centerX (js_divide (real info_width) 2)))
                                   (Math_round (js_minus centerY (js_divide (real info_height) 2)))),
                        w1))))"

text \<open>The loop: \<open>overlays\<close> and \<open>skippedImages\<close> are its two variables.\<close>

fun compose_items ::
  "env \<Rightarrow> nat \<Rightarrow> nat \<Rightarrow> GraffitiItem list \<Rightarrow> overlay list \<Rightarrow> nat \<Rightarrow> world \<Rightarrow>
   (overlay list \<times> nat) result \<times> world" where
  "compose_items e width height [] overlays skipped w = (Inr (overlays, skipped), w)"
| "compose_items e width height (item # items) overlays skipped w =
     (case item_overlay e width height item w of
        (Overlay ov, w1) \<Rightarrow> compose_items e width height items (overlays @ [ov]) skipped w1
      | (Skipped, w1) \<Rightarrow> compose_items e width height items overlays (skipped + 1) w1
      | (Failed err, w1) \<Rightarrow> (Inl err, w1))"

text \<open>The \<open>reduce\<close> over the items and the key made of its result.\<close>

definition latestChangeMs :: "env \<Rightarrow> GraffitiItem list \<Rightarrow> int option" where
  "latestChangeMs e items =
     foldl (\<lambda>latest item.
              case Date_parse e (createdAt item) of
                None \<Rightarrow> latest
              | Some parsed \<Rightarrow>
                  (case latest of
                     None \<Rightarrow> Some parsed
                   | Some l \<Rightarrow> if parsed > l then Some parsed else latest))
           None items"

definition snapshot_key :: "env \<Rightarrow> GraffitiItem list \<Rightarrow> string" where
  "snapshot_key e items =
     (case latestChangeMs e items of None \<Rightarrow> ''empty'' | Some ms \<Rightarrow> String_of_int ms)"

definition snapshot_fileName :: "string \<Rightarrow> string" where
  "snapshot_fileName key = ''wall-snapshot-'' @ key @ ''.png''"

text \<open>
  The part of \<open>generateWallSnapshot\<close> after the \<open>try\<close>: the snapshot is rendered and
  written to \<open>outPath\<close>.
\<close>

definition render_snapshot ::
  "env \<Rightarrow> GraffitiItem list \<Rightarrow> string \<Rightarrow> world \<Rightarrow> SnapshotResult result \<times> world" where
  "render_snapshot e items key w =
     (let fileName = snapshot_fileName key;
          outPath = path_join [SNAPSHOT_DIR e, fileName]
      in case resolveBackgroundPath e w of
           Inl err \<Rightarrow> (Inl err, w)
         | Inr backgroundPath \<Rightarrow>
            (case files w backgroundPath of
               None \<Rightarrow> (Inl (Error ''ENOENT''), w)
             | Some backgroundBuffer \<Rightarrow>
                (case sharp_metadata e backgroundBuffer of
                   None \<Rightarrow> (Inl (Error ''sharp''), w)
                 | Some md \<Rightarrow>
                    (case (md_width md, md_height md) of
                       (Some width, Some height) \<Rightarrow>
                         if width = 0 \<or> height = 0
                         then (Inl (Error ''Background image has unknown dimensions.''), w)
                         else
                           (case compose_items e width height items [] 0 w of
                              (Inl err, w1) \<Rightarrow> (Inl err, w1)
                            | (Inr (overlays, skipped), w1) \<Rightarrow>
                                let w2 = w1\<lparr>composite_calls := composite_calls w1 + 1\<rparr>
                                in (case sharp_composite e backgroundBuffer overlays of
                                      None \<Rightarrow> (Inl (Error ''sharp''), w2)
                                    | Some snapshotBuffer \<Rightarrow>
                                        (Inr \<lparr>snapshot_imageUrl = ''/uploads/snapshots/'' @ fileName,
                                              snapshot_width = width,
                                              snapshot_height = height,
                                              itemCount = length items,
                                              skippedImages = skipped,
                                              fromCache = False,
                                              snapshotKey = key\<rparr>,
                                         w2\<lparr>files := (files w2)(outPath \<mapsto> snapshotBuffer)\<rparr>)))
                     | _ \<Rightarrow> (Inl (Error ''Background image has unknown dimensions.''), w)))))"

text \<open>
  \<open>generateWallSnapshot\<close>. The \<open>try\<close> holds \<open>fs.access\<close> and \<open>metadata()\<close>: when either
  throws, the \<open>catch\<close> goes on to the rendering.
\<close>

definition generateWallSnapshot :: "env \<Rightarrow> world \<Rightarrow> SnapshotResult result \<times> world" where
  "generateWallSnapshot e w =
     (case getGraffiti e w of
        (Inl err, w1) \<Rightarrow> (Inl err, w1)
      | (Inr items, w1) \<Rightarrow>
          let key = snapshot_key e items;
              fileName = snapshot_fileName key;
              outPath = path_join [SNAPSHOT_DIR e, fileName];
              cached = (case files w1 outPath of
                          None \<Rightarrow> None
                        | Some bytes \<Rightarrow> sharp_metadata e bytes)
          in case cached of
               Some meta \<Rightarrow>
                 (Inr \<lparr>snapshot_imageUrl = ''/uploads/snapshots/'' @ fileName,
                       snapshot_width = (case md_width meta of Some n \<Rightarrow> n | None \<Rightarrow> 0),
                       snapshot_height = (case md_height meta of Some n \<Rightarrow> n | None \<Rightarrow> 0),
                       itemCount = length items,
                       skippedImages = 0,
                       fromCache = True,
                       snapshotKey = key\<rparr>, w1)
             | None \<Rightarrow> render_snapshot e items key w1)"

text \<open>
  The timestamps of the items whose \<open>createdAt\<close> \<open>Date.parse\<close> reads, in milliseconds, in
  the order of the items: what the key is stated with.
\<close>

definition parsed_times :: "env \<Rightarrow> GraffitiItem list \<Rightarrow> int list" where
  "parsed_times e items =
     concat (map (\<lambda>item. case Date_parse e (createdAt item) of None \<Rightarrow> [] | Some t \<Rightarrow> [t]) items)"

text \<open>
  A path under the public root, as a string: it starts with the root and a separator,
  and none of its segments is \<open>..\<close>.
\<close>

definition confined :: "env \<Rightarrow> string \<Rightarrow> bool" where
  "confined e p \<longleftrightarrow>
     startsWith p (path_resolve e [PUBLIC_DIR e] @ ''/'') \<and>
     ''..'' \<notin> set (split_char CHR ''/'' p)"

text \<open>
  What sharp is taken to do in a statement on two calls in a row: the image that
  \<open>composite\<close> gives can be read, and has the width and the height of its background.
\<close>

definition composite_keeps_size :: "env \<Rightarrow> bool" where
  "composite_keeps_size e \<longleftrightarrow>
     (\<forall>background overlays out md.
        sharp_composite e background overlays = Some out \<and>
        sharp_metadata e background = Some md \<longrightarrow>
        (\<exists>md1. sharp_metadata e out = Some md1 \<and>
               md_width md1 = md_width md \<and> md_height md1 = md_height md))"

text \<open>An image whose source \<open>loadImageSource\<close> does not resolve, on a given disk.\<close>

definition unresolved :: "env \<Rightarrow> world \<Rightarrow> GraffitiItem \<Rightarrow> bool" where
  "unresolved e w item =
     (case item of
        GraffitiImage i url pos dims rot opa created \<Rightarrow> fst (loadImageSource e url w) = None
      | GraffitiText i txt fnt col pos sz rot opa created \<Rightarrow> False)"

section \<open>An environment for the examples\<close>

text \<open>
  A comparator for the examples: comparison by code units, which is what a locale's
  collation gives on the timestamps \<open>toISOString\<close> writes (digits in fixed places).
\<close>

fun codeunit_compare :: "string \<Rightarrow> string \<Rightarrow> int" where
  "codeunit_compare [] [] = 0"
| "codeunit_compare [] (b # bs) = - 1"
| "codeunit_compare (a # as) [] = 1"
| "codeunit_compare (a # as) (b # bs) =
     (if (of_char a :: nat) < of_char b then - 1
      else if (of_char b :: nat) < of_char a then 1
      else codeunit_compare as bs)"

text \<open>
  The examples run in \<open>/app\<close>, off line. \<open>Date.parse\<close> is given by its values on the
  timestamps of the examples, and is \<open>NaN\<close> on their other strings, none of which is a
  date. The image library of the examples decodes the buffers that start with \<open>PNG\<close>,
  all of them 1000 by 800 pixels, and no other buffer; a composite is \<open>PNG\<close> and the
  number of its overlays. \<open>Buffer.from(s, "base64")\<close> is given by its value on the one
  payload of the examples, \<open>AAAA\<close>, which is three zero bytes. The URLs the schema
  accepts are those that start with \<open>http://\<close> or \<open>https://\<close>.
\<close>

definition example_base64 :: "string \<Rightarrow> string" where
  "example_base64 s =
     (case map_of [(''AAAA'', [CHR 0x00, CHR 0x00, CHR 0x00])] s of
        Some bytes \<Rightarrow> bytes | None \<Rightarrow> [])"

definition example_Date_parse :: "string \<Rightarrow> int option" where
  "example_Date_parse s =
     map_of [(''2024-01-01T00:00:00.000Z'', 1704067200000),
             (''2024-01-01T00:00:01.000Z'', 1704067201000),
             (''2024-01-02T00:00:00.000Z'', 1704153600000)] s"

definition example_env :: env where
  "example_env =
     \<lparr>cwd = ''/app'',
      localeCompare = codeunit_compare,
      Date_parse = example_Date_parse,
      base64_decode = example_base64,
      z_url = (\<lambda>s. startsWith s ''http://'' \<or> startsWith s ''https://''),
      fetch = (\<lambda>url. None),
      sharp_metadata =
        (\<lambda>bytes. if startsWith bytes ''PNG''
                  then Some \<lparr>md_width = Some 1000, md_height = Some 800\<rparr> else None),
      sharp_overlay =
        (\<lambda>bytes w h rot opa. if startsWith bytes ''PNG'' then Some (bytes, nat w, nat h) else None),
      sharp_composite =
        (\<lambda>background overlays.
           if startsWith background ''PNG''
           then Some (''PNG'' @ digits_of (length overlays)) else None)\<rparr>"

text \<open>
  The disk of the examples: two tags and a sticker whose file is missing, written in
  an order that is not the one of their timestamps, and a background.
\<close>

definition tag_a :: GraffitiItem where
  "tag_a = GraffitiText ''id-a'' ''hi'' ''Impact, sans-serif'' ''#111111''
             \<lparr>pos_x = 10, pos_y = 10\<rparr> 20 0 1 ''2024-01-01T00:00:00.000Z''"

definition tag_b :: GraffitiItem where
  "tag_b = GraffitiText ''id-b'' ''yo'' ''Impact, sans-serif'' ''#111111''
             \<lparr>pos_x = 30, pos_y = 40\<rparr> 56 (- 8) (3 / 4) ''2024-01-02T00:00:00.000Z''"

definition sticker :: GraffitiItem where
  "sticker = GraffitiImage ''id-c'' ''/uploads/missing.png''
               \<lparr>pos_x = 50, pos_y = 50\<rparr> \<lparr>dim_width = 20, dim_height = 20\<rparr> 0 1
               ''2024-01-01T00:00:00.000Z''"

definition example_files :: "string \<rightharpoonup> string" where
  "example_files =
     [''/app/public/leftys-bg.png'' \<mapsto> ''PNG background'']"

definition example_world :: world where
  "example_world =
     \<lparr>DATA_FILE = Stored [tag_b, tag_a, sticker], files = example_files,
      fs_reads = [], composite_calls = 0\<rparr>"

definition example_text_args :: spray_text_args where
  "example_text_args =
     \<lparr>st_text = ''hi'', st_font = None, st_color = None,
      st_position = \<lparr>pos_x = 30, pos_y = 1 / 2\<rparr>,
      st_size = Some 56, st_rotation = Some (- 8), st_opacity = None\<rparr>"

definition example_image_args :: spray_image_args where
  "example_image_args =
     \<lparr>si_image_url = Some ''https://example.com/tag.png'', si_image_blob = None,
      si_position = \<lparr>pos_x = 1 / 2, pos_y = 1 / 2\<rparr>,
      si_dimensions = \<lparr>dim_width = 24, dim_height = 24\<rparr>,
      si_rotation = Some 10, si_opacity = Some (3 / 4)\<rparr>"

definition example_registry :: registry where
  "example_registry =
     \<lparr>transports = [''s1'' \<mapsto> \<lparr>handle = 1, sessionId = Some ''s1''\<rparr>],
      servers = [''s1'' \<mapsto> 0], fresh = 2\<rparr>"

definition example_sdk :: sdk where
  "example_sdk =
     \<lparr>handle_new = (\<lambda>req. Session_initialized),
      handle_live = (\<lambda>t req. if http_method req = DELETE then Closed else Answered)\<rparr>"

definition first_tag :: GraffitiItem where
  "first_tag = GraffitiText ''id-1'' ''one'' ''Impact, sans-serif'' ''#111111''
                 \<lparr>pos_x = 10, pos_y = 10\<rparr> 42 0 1 ''2024-01-01T00:00:00.000Z''"

definition second_tag :: GraffitiItem where
  "second_tag = GraffitiText ''id-2'' ''two'' ''Impact, sans-serif'' ''#111111''
                  \<lparr>pos_x = 20, pos_y = 20\<rparr> 42 0 1 ''2024-01-01T00:00:00.000Z''"

definition empty_store :: world where
  "empty_store = \<lparr>DATA_FILE = Stored [], files = example_files, fs_reads = [], composite_calls = 0\<rparr>"

text \<open>
  The disk of the examples after the first snapshot; a tag whose \<open>createdAt\<close> is not a
  date and a sticker whose path leaves the public directory, each on a disk of its own.
\<close>

definition rendered_world :: world where
  "rendered_world =
     \<lparr>DATA_FILE = Stored [tag_b, tag_a, sticker],
      files = example_files
        (''/app/public/uploads/snapshots/wall-snapshot-1704153600000.png'' \<mapsto> ''PNG2''),
      fs_reads = [''/app/public/uploads/missing.png''], composite_calls = 1\<rparr>"

definition undated_tag :: GraffitiItem where
  "undated_tag = GraffitiText ''id-u'' ''hi'' ''Impact, sans-serif'' ''#111111''
                   \<lparr>pos_x = 10, pos_y = 10\<rparr> 20 0 1 ''not a date''"

definition undated_world :: world where
  "undated_world =
     \<lparr>DATA_FILE = Stored [undated_tag], files = example_files,
      fs_reads = [], composite_calls = 0\<rparr>"

definition traversal_sticker :: GraffitiItem where
  "traversal_sticker = GraffitiImage ''id-t'' ''/../data/graffiti.json''
                         \<lparr>pos_x = 50, pos_y = 50\<rparr> \<lparr>dim_width = 20, dim_height = 20\<rparr> 0 1
                         ''2024-01-01T00:00:01.000Z''"

text \<open>
  A call of \<open>spray_image\<close> with an \<open>image_blob\<close> that is base64 of bytes that are not an
  image, the item it stores and the disk it leaves when it is made on the empty store
  with \<open>id-f\<close> as the name of the file and \<open>id-x\<close> as the id of the item.
\<close>

definition blob_args :: spray_image_args where
  "blob_args =
     \<lparr>si_image_url = None, si_image_blob = Some ''AAAA'',
      si_position = \<lparr>pos_x = 50, pos_y = 50\<rparr>,
      si_dimensions = \<lparr>dim_width = 20, dim_height = 20\<rparr>,
      si_rotation = None, si_opacity = None\<rparr>"

definition blob_sticker :: GraffitiItem where
  "blob_sticker = GraffitiImage ''id-x'' ''/uploads/id-f.png''
                    \<lparr>pos_x = 50, pos_y = 50\<rparr> \<lparr>dim_width = 20, dim_height = 20\<rparr> 0 1
                    ''2024-01-01T00:00:01.000Z''"

definition blob_world :: world where
  "blob_world =
     \<lparr>DATA_FILE = Stored [blob_sticker],
      files = example_files
        (''/app/public/uploads/id-f.png'' \<mapsto> [CHR 0x00, CHR 0x00, CHR 0x00]),
      fs_reads = [], composite_calls = 0\<rparr>"

text \<open>Two inputs of one instant, and the ids generated for them.\<close>

definition two_inputs :: "(string \<times> string \<times> NewGraffitiItem) list" where
  "two_inputs =
     [(''id-1'', ''2024-01-01T00:00:00.000Z'',
       NewGraffitiText ''one'' ''Impact, sans-serif'' ''#111111'' \<lparr>pos_x = 10, pos_y = 10\<rparr> 42 0 1),
      (''id-2'', ''2024-01-01T00:00:00.000Z'',
       NewGraffitiText ''two'' ''Impact, sans-serif'' ''#111111'' \<lparr>pos_x = 20, pos_y = 20\<rparr> 42 0 1)]"

section \<open>Facts about the arithmetic\<close>

lemma pow2_powr: "pow2 k = 2 powr (of_int k)"
  by (simp add: pow2_def powr_real_of_int inverse_eq_divide)

lemma ulp_exponent_eq:
  assumes "pow2 k \<le> \<bar>v\<bar>" and "\<bar>v\<bar> < pow2 (k + 1)"
  shows "ulp_exponent v = max (k - 52) (- 1074)"
proof -
  have "0 < pow2 k" by (simp add: pow2_def)
  with assms(1) have p: "0 < \<bar>v\<bar>" by linarith
  have "\<lfloor>log 2 \<bar>v\<bar>\<rfloor> = k"
    using assms p by (simp add: floor_log_eq_powr_iff pow2_powr)
  then show ?thesis by (simp add: ulp_exponent_def)
qed

lemma to_double_eval:
  assumes "pow2 k \<le> \<bar>v\<bar>" and "\<bar>v\<bar> < pow2 (k + 1)"
  shows "to_double v =
           of_int (round_half_even (v / pow2 (max (k - 52) (- 1074)))) *
           pow2 (max (k - 52) (- 1074))"
proof -
  have "0 < pow2 k" by (simp add: pow2_def)
  with assms(1) have "v \<noteq> 0" by auto
  then show ?thesis by (simp add: to_double_def ulp_exponent_eq [OF assms])
qed

text \<open>
  Three values of the arithmetic: a half times 100 is 50; the double of 0.07 times 100
  is the double after 7, which prints as 7.000000000000001; and 50.25 percent of 1000
  pixels round to 502, the product being the double before 502.5.
\<close>

lemma js_times_half: "js_times (1 / 2) 100 = 50"
  unfolding js_times_def
  by (subst to_double_eval [of 5]) (simp_all add: pow2_def round_half_even_def)

lemma to_double_seven_hundredths: "to_double (7 / 100) = 5044031582654956 / 2 ^ 56"
  by (subst to_double_eval [of "- 4"]) (simp_all add: pow2_def round_half_even_def Let_def)

lemma js_times_seven_hundredths: "js_times (to_double (7 / 100)) 100 = 7 + 1 / 2 ^ 50"
  unfolding js_times_def to_double_seven_hundredths
  by (subst to_double_eval [of 2]) (simp_all add: pow2_def round_half_even_def Let_def)

lemma js_divide_50_25: "js_divide (201 / 4) 100 = 1131529406376837 / 2 ^ 51"
  unfolding js_divide_def
  by (subst to_double_eval [of "- 1"]) (simp_all add: pow2_def round_half_even_def Let_def)

lemma Math_round_50_25_percent: "Math_round (percentToPixels (201 / 4) 1000) = 502"
  unfolding percentToPixels_def js_divide_50_25 js_times_def
  by (subst to_double_eval [of 8]) (simp_all add: pow2_def round_half_even_def Let_def Math_round_def)

section \<open>Facts about the sort and the store\<close>

lemma cmp_total: "consistent_comparator cmp \<Longrightarrow> \<not> cmp a b \<le> 0 \<Longrightarrow> cmp b a \<le> 0"
proof -
  assume "consistent_comparator cmp" and "\<not> cmp a b \<le> 0"
  moreover from this have "(cmp b a < 0) = (0 < cmp a b)" unfolding consistent_comparator_def by blast
  ultimately show ?thesis by arith
qed

lemma cmp_trans:
  "consistent_comparator cmp \<Longrightarrow> cmp a b \<le> 0 \<Longrightarrow> cmp b c \<le> 0 \<Longrightarrow> cmp a c \<le> 0"
  unfolding consistent_comparator_def by blast

lemma cmp_sym0: "consistent_comparator cmp \<Longrightarrow> cmp a b = 0 \<Longrightarrow> cmp b a = 0"
proof -
  assume "consistent_comparator cmp" and "cmp a b = 0"
  moreover from this have "(cmp b a < 0) = (0 < cmp a b)" "(cmp a b < 0) = (0 < cmp b a)"
    unfolding consistent_comparator_def by blast+
  ultimately show ?thesis by arith
qed

lemma set_insort_cmp: "set (insort_cmp cmp a xs) = insert a (set xs)"
  by (induction xs) auto

lemma mset_insort_cmp: "mset (insort_cmp cmp a xs) = add_mset a (mset xs)"
  by (induction xs) auto

lemma mset_Array_sort: "mset (Array_sort cmp xs) = mset xs"
  unfolding Array_sort_def by (induction xs) (simp_all add: mset_insort_cmp)

lemma sorted_insort_cmp:
  assumes "consistent_comparator cmp" and "sorted_wrt (\<lambda>a b. cmp a b \<le> 0) xs"
  shows "sorted_wrt (\<lambda>a b. cmp a b \<le> 0) (insort_cmp cmp a xs)"
  using assms(2)
proof (induction xs)
  case Nil
  then show ?case by simp
next
  case (Cons b bs)
  show ?case
  proof (cases "cmp a b \<le> 0")
    case True
    have "\<forall>c\<in>set bs. cmp a c \<le> 0"
      using Cons.prems True cmp_trans [OF assms(1)] by auto
    with True Cons.prems show ?thesis by simp
  next
    case False
    then have "cmp b a \<le> 0" by (rule cmp_total [OF assms(1)])
    with False Cons show ?thesis by (auto simp: set_insort_cmp)
  qed
qed

lemma sorted_Array_sort:
  "consistent_comparator cmp \<Longrightarrow> sorted_wrt (\<lambda>a b. cmp a b \<le> 0) (Array_sort cmp xs)"
  unfolding Array_sort_def by (induction xs) (simp_all add: sorted_insort_cmp)

lemma filter_insort_cmp_eq:
  assumes c: "consistent_comparator cmp" and s: "sorted_wrt (\<lambda>a b. cmp a b \<le> 0) xs"
  shows "filter (\<lambda>y. cmp k y = 0) (insort_cmp cmp a xs) =
         (if cmp k a = 0 then a # filter (\<lambda>y. cmp k y = 0) xs else filter (\<lambda>y. cmp k y = 0) xs)"
  using s
proof (induction xs)
  case Nil
  then show ?case by simp
next
  case (Cons b bs)
  show ?case
  proof (cases "cmp a b \<le> 0")
    case True
    then show ?thesis by simp
  next
    case False
    have ba: "cmp b a \<le> 0" using False by (rule cmp_total [OF c])
    have "\<not> (cmp k a = 0 \<and> cmp k b = 0)"
    proof
      assume h: "cmp k a = 0 \<and> cmp k b = 0"
      then have "cmp a k \<le> 0" using cmp_sym0 [OF c, of k a] by simp
      moreover have "cmp k b \<le> 0" using h by simp
      ultimately have "cmp a b \<le> 0" by (rule cmp_trans [OF c])
      with False show False by simp
    qed
    with False Cons show ?thesis by auto
  qed
qed

lemma Array_sort_stable:
  assumes c: "consistent_comparator cmp"
  shows "filter (\<lambda>y. cmp k y = 0) (Array_sort cmp xs) = filter (\<lambda>y. cmp k y = 0) xs"
proof (induction xs)
  case Nil
  then show ?case by (simp add: Array_sort_def)
next
  case (Cons a xs)
  have "Array_sort cmp (a # xs) = insort_cmp cmp a (Array_sort cmp xs)"
    by (simp add: Array_sort_def)
  then show ?case
    using Cons filter_insort_cmp_eq [OF c sorted_Array_sort [OF c], of k a xs] by simp
qed

lemma cu_anti: "(codeunit_compare a b < 0) = (0 < codeunit_compare b a)"
  by (induction a b rule: codeunit_compare.induct) auto

lemma cu_le_Cons:
  "(codeunit_compare (a # as) (b # bs) \<le> 0) =
   ((of_char a :: nat) < of_char b \<or> ((of_char a :: nat) = of_char b \<and> codeunit_compare as bs \<le> 0))"
  by (cases "(of_char a :: nat) < of_char b"; cases "(of_char b :: nat) < of_char a") auto

lemma cu_trans: "codeunit_compare a b \<le> 0 \<Longrightarrow> codeunit_compare b c \<le> 0 \<Longrightarrow> codeunit_compare a c \<le> 0"
proof (induction a b arbitrary: c rule: codeunit_compare.induct)
  case 1
  then show ?case by (cases c) auto
next
  case (2 b bs)
  then show ?case by (cases c) auto
next
  case (3 a as)
  then show ?case by simp
next
  case (4 a as b bs)
  show ?case
  proof (cases c)
    case Nil
    with "4.prems"(2) show ?thesis by simp
  next
    case (Cons d ds)
    have ab: "(of_char a :: nat) < of_char b \<or> ((of_char a :: nat) = of_char b \<and> codeunit_compare as bs \<le> 0)"
      using "4.prems"(1) by (simp only: cu_le_Cons)
    have bd: "(of_char b :: nat) < of_char d \<or> ((of_char b :: nat) = of_char d \<and> codeunit_compare bs ds \<le> 0)"
      using "4.prems"(2) unfolding Cons by (simp only: cu_le_Cons)
    show ?thesis
    proof (cases "(of_char a :: nat) = of_char b \<and> (of_char b :: nat) = of_char d")
      case True
      then have "codeunit_compare as bs \<le> 0" "codeunit_compare bs ds \<le> 0" using ab bd by simp_all
      then have "codeunit_compare as ds \<le> 0" using "4.IH" True by simp
      then show ?thesis unfolding Cons cu_le_Cons using True by simp
    next
      case False
      then have "(of_char a :: nat) < of_char d" using ab bd by linarith
      then show ?thesis unfolding Cons cu_le_Cons by simp
    qed
  qed
qed

lemma cu_consistent: "consistent_comparator codeunit_compare"
  unfolding consistent_comparator_def using cu_anti cu_trans by blast

lemma foldr_insort_snoc:
  assumes c: "consistent_comparator cmp" and s: "sorted_wrt (\<lambda>a b. cmp a b \<le> 0) xs"
  shows "foldr (insort_cmp cmp) xs [a] =
         takeWhile (\<lambda>y. cmp y a \<le> 0) xs @ a # dropWhile (\<lambda>y. cmp y a \<le> 0) xs"
  using s
proof (induction xs)
  case Nil
  then show ?case by simp
next
  case (Cons b bs)
  then have IH: "foldr (insort_cmp cmp) bs [a] =
         takeWhile (\<lambda>y. cmp y a \<le> 0) bs @ a # dropWhile (\<lambda>y. cmp y a \<le> 0) bs" by simp
  have bb: "\<forall>y\<in>set bs. cmp b y \<le> 0" using Cons.prems by simp
  show ?case
  proof (cases "cmp b a \<le> 0")
    case True
    have "insort_cmp cmp b (takeWhile (\<lambda>y. cmp y a \<le> 0) bs @ a # dropWhile (\<lambda>y. cmp y a \<le> 0) bs)
        = b # (takeWhile (\<lambda>y. cmp y a \<le> 0) bs @ a # dropWhile (\<lambda>y. cmp y a \<le> 0) bs)"
      using True bb by (cases bs) auto
    with True IH show ?thesis by simp
  next
    case False
    have tw: "takeWhile (\<lambda>y. cmp y a \<le> 0) bs = []"
    proof (cases bs)
      case Nil
      then show ?thesis by simp
    next
      case (Cons y ys)
      then have "cmp b y \<le> 0" using bb by simp
      then have "\<not> cmp y a \<le> 0" using False cmp_trans [OF c, of b y a] by blast
      then show ?thesis using Cons by simp
    qed
    then have dw: "dropWhile (\<lambda>y. cmp y a \<le> 0) bs = bs"
      by (metis append_Nil takeWhile_dropWhile_id)
    have "insort_cmp cmp b (a # bs) = a # b # bs"
      using False bb by (cases bs) auto
    with False IH tw dw show ?thesis by simp
  qed
qed

lemma Array_sort_snoc:
  assumes c: "consistent_comparator cmp"
  shows "\<exists>ys zs. Array_sort cmp xs = ys @ zs \<and>
           Array_sort cmp (Array_sort cmp xs @ [a]) = ys @ a # zs"
proof -
  let ?S = "Array_sort cmp xs"
  let ?P = "\<lambda>y. cmp y a \<le> 0"
  have "Array_sort cmp (?S @ [a]) = foldr (insort_cmp cmp) ?S [a]"
    by (simp add: Array_sort_def)
  also have "\<dots> = takeWhile ?P ?S @ a # dropWhile ?P ?S"
    by (rule foldr_insort_snoc [OF c sorted_Array_sort [OF c]])
  finally have "Array_sort cmp (?S @ [a]) = takeWhile ?P ?S @ a # dropWhile ?P ?S" .
  moreover have "?S = takeWhile ?P ?S @ dropWhile ?P ?S" by simp
  ultimately show ?thesis by blast
qed

lemma by_createdAt_consistent:
  "consistent_comparator (localeCompare e) \<Longrightarrow> consistent_comparator (by_createdAt e)"
  unfolding consistent_comparator_def by_createdAt_def by blast

lemma getGraffiti_readable:
  "DATA_FILE w \<noteq> Malformed \<Longrightarrow>
   getGraffiti e w = (Inr (Array_sort (by_createdAt e) (stored_items w)),
                      w\<lparr>DATA_FILE := Stored (stored_items w)\<rparr>)"
  by (cases "DATA_FILE w") (simp_all add: getGraffiti_def ensureDataFile_def stored_items_def)

lemma getGraffiti_Inr:
  "getGraffiti e w = (Inr listed, w') \<Longrightarrow>
   DATA_FILE w \<noteq> Malformed \<and> listed = Array_sort (by_createdAt e) (stored_items w)"
  by (cases "DATA_FILE w")
     (auto simp add: getGraffiti_def ensureDataFile_def stored_items_def Let_def)

lemma example_sorted:
  "Array_sort (by_createdAt example_env) [tag_b, tag_a, sticker] = [tag_a, sticker, tag_b]"
  by (simp add: Array_sort_def by_createdAt_def example_env_def tag_a_def tag_b_def sticker_def)

lemma example_env_fields:
  "cwd example_env = ''/app''"
  "localeCompare example_env = codeunit_compare"
  "Date_parse example_env = example_Date_parse"
  "base64_decode example_env = example_base64"
  "z_url example_env = (\<lambda>s. startsWith s ''http://'' \<or> startsWith s ''https://'')"
  "fetch example_env = (\<lambda>url. None)"
  "sharp_metadata example_env =
     (\<lambda>bytes. if startsWith bytes ''PNG''
               then Some \<lparr>md_width = Some 1000, md_height = Some 800\<rparr> else None)"
  "sharp_overlay example_env =
     (\<lambda>bytes w h rot opa. if startsWith bytes ''PNG'' then Some (bytes, nat w, nat h) else None)"
  "sharp_composite example_env =
     (\<lambda>background overlays.
        if startsWith background ''PNG''
        then Some (''PNG'' @ digits_of (length overlays)) else None)"
  by (simp_all add: example_env_def)

lemma addGraffiti_Inr:
  assumes "addGraffiti e uuid now item w = (Inr it, w1)"
  shows "it = stamp item uuid now \<and>
         stored_items w1 = Array_sort (by_createdAt e) (stored_items w) @ [it]"
proof (cases "DATA_FILE w = Malformed")
  case True
  then have "getGraffiti e w = (Inl SyntaxError, w)"
    by (simp add: getGraffiti_def ensureDataFile_def)
  with assms show ?thesis by (simp add: addGraffiti_def)
next
  case False
  then have "getGraffiti e w = (Inr (Array_sort (by_createdAt e) (stored_items w)),
                      w\<lparr>DATA_FILE := Stored (stored_items w)\<rparr>)"
    by (rule getGraffiti_readable)
  with assms show ?thesis by (auto simp add: addGraffiti_def Let_def stored_items_def)
qed

lemma stored_items_saveImageBlob:
  "stored_items (snd (saveImageBlob e u b w)) = stored_items w"
  by (simp add: saveImageBlob_def Let_def stored_items_def)

lemma normalizePercentPair_first:
  "first (normalizePercentPair a b) = (if 0 \<le> a \<and> a < 1 \<and> 0 \<le> b \<and> b < 1 then js_times a 100 else a)"
  by (simp add: normalizePercentPair_def fractionRange_def)

lemma normalizePercentPair_second:
  "second (normalizePercentPair a b) = (if 0 \<le> a \<and> a < 1 \<and> 0 \<le> b \<and> b < 1 then js_times b 100 else b)"
  by (simp add: normalizePercentPair_def fractionRange_def)

lemma spray_text_stored:
  assumes "spray_text e uuid now ta w = (Inr msg, w1)"
  shows "\<exists>it. stored_items w1 = Array_sort (by_createdAt e) (stored_items w) @ [it] \<and>
              item_id it = uuid \<and>
              position it =
                (if 0 \<le> pos_x (st_position ta) \<and> pos_x (st_position ta) < 1 \<and>
                    0 \<le> pos_y (st_position ta) \<and> pos_y (st_position ta) < 1
                 then \<lparr>pos_x = js_times (pos_x (st_position ta)) 100,
                  pos_y = js_times (pos_y (st_position ta)) 100\<rparr>
                 else st_position ta)"
proof -
  let ?np = "normalizePercentPair (pos_x (st_position ta)) (pos_y (st_position ta))"
  from assms obtain tx fnt col sz rot opa it where
    a: "addGraffiti e uuid now
          (NewGraffitiText tx fnt col \<lparr>pos_x = first ?np, pos_y = second ?np\<rparr> sz rot opa) w
        = (Inr it, w1)"
    by (auto simp add: spray_text_def Let_def split: if_splits sum.splits prod.splits)
  from addGraffiti_Inr [OF a] show ?thesis
    by (auto simp add: normalizePercentPair_first normalizePercentPair_second)
qed

lemma spray_image_stored:
  assumes "spray_image e file_uuid uuid now ia w = (Inr msg, w1)"
  shows "\<exists>it. stored_items w1 = Array_sort (by_createdAt e) (stored_items w) @ [it] \<and>
              item_id it = uuid \<and>
              position it =
                (if 0 \<le> pos_x (si_position ia) \<and> pos_x (si_position ia) < 1 \<and>
                    0 \<le> pos_y (si_position ia) \<and> pos_y (si_position ia) < 1
                 then \<lparr>pos_x = js_times (pos_x (si_position ia)) 100,
                  pos_y = js_times (pos_y (si_position ia)) 100\<rparr>
                 else si_position ia) \<and>
              dimensions it =
                (if 0 \<le> dim_width (si_dimensions ia) \<and> dim_width (si_dimensions ia) < 1 \<and>
                    0 \<le> dim_height (si_dimensions ia) \<and> dim_height (si_dimensions ia) < 1
                 then \<lparr>dim_width = js_times (dim_width (si_dimensions ia)) 100,
                       dim_height = js_times (dim_height (si_dimensions ia)) 100\<rparr>
                 else si_dimensions ia)"
proof -
  let ?np = "normalizePercentPair (pos_x (si_position ia)) (pos_y (si_position ia))"
  let ?nd = "normalizePercentPair (dim_width (si_dimensions ia)) (dim_height (si_dimensions ia))"
  from assms obtain url w0 rot opa it where
    a: "addGraffiti e uuid now
          (NewGraffitiImage url \<lparr>pos_x = first ?np, pos_y = second ?np\<rparr>
             \<lparr>dim_width = first ?nd, dim_height = second ?nd\<rparr> rot opa) w0
        = (Inr it, w1)"
    and w0: "w0 = w \<or> w0 = snd (saveImageBlob e file_uuid (the (si_image_blob ia)) w)"
    by (auto simp add: spray_image_def Let_def split: if_splits sum.splits prod.splits option.splits)
  have "stored_items w0 = stored_items w"
    using w0 by (auto simp add: stored_items_saveImageBlob)
  with addGraffiti_Inr [OF a] show ?thesis
    by (auto simp add: normalizePercentPair_first normalizePercentPair_second)
qed

lemma example_spray_text:
  "spray_text example_env ''id-d'' ''2024-01-01T00:00:01.000Z'' example_text_args example_world =
     (Inr ''spray_text created id-d'',
      example_world\<lparr>DATA_FILE := Stored [tag_a, sticker, tag_b,
        GraffitiText ''id-d'' ''hi'' ''Impact, sans-serif'' ''#111111''
          \<lparr>pos_x = 30, pos_y = 1 / 2\<rparr> 56 (- 8) 1 ''2024-01-01T00:00:01.000Z'']\<rparr>)"
  by (simp add: spray_text_def example_text_args_def positionSchema_def percent_def
      size_schema_def rotation_schema_def opacity_schema_def normalizePercentPair_def
      fractionRange_def addGraffiti_def getGraffiti_def ensureDataFile_def example_world_def
      example_sorted Let_def)

lemma example_spray_image:
  "spray_image example_env ''id-f'' ''id-e'' ''2024-01-01T00:00:01.000Z'' example_image_args
     example_world =
     (Inr ''spray_image created id-e (normalized 0-1 fractions to 0-100 percentages)'',
      example_world\<lparr>DATA_FILE := Stored [tag_a, sticker, tag_b,
        GraffitiImage ''id-e'' ''https://example.com/tag.png''
          \<lparr>pos_x = 50, pos_y = 50\<rparr> \<lparr>dim_width = 24, dim_height = 24\<rparr> 10 (3 / 4)
          ''2024-01-01T00:00:01.000Z'']\<rparr>)"
  by (simp add: spray_image_def example_image_args_def positionSchema_def dimensionsSchema_def
      percent_def rotation_schema_def opacity_schema_def normalizePercentPair_def
      fractionRange_def addGraffiti_def getGraffiti_def ensureDataFile_def example_world_def
      example_sorted example_env_fields startsWith_def Let_def js_times_half)

section \<open>Facts about paths\<close>

lemma split_char_no_sep: "\<forall>s\<in>set (split_char c xs). c \<notin> set s"
  by (induction xs) (auto split: list.splits)

lemma split_char_plain: "c \<notin> set s \<Longrightarrow> split_char c s = [s]"
  by (induction s) auto

lemma split_char_append:
  "c \<notin> set s \<Longrightarrow> split_char c (s @ c # rest) = s # split_char c rest"
  by (induction s) auto

lemma split_char_join:
  "segs \<noteq> [] \<Longrightarrow> \<forall>s\<in>set segs. c \<notin> set s \<Longrightarrow> split_char c (join_with [c] segs) = segs"
proof (induction segs)
  case Nil
  then show ?case by simp
next
  case (Cons s segs)
  show ?case
  proof (cases segs)
    case Nil
    then show ?thesis using Cons.prems by (simp add: split_char_plain)
  next
    case (Cons t ts)
    then have "split_char c (join_with [c] segs) = segs" using Cons.IH Cons.prems by simp
    then show ?thesis using Cons Cons.prems by (simp add: split_char_append)
  qed
qed

lemma normalize_segs_subset:
  "set (normalize_segs False stack segs) \<subseteq> set stack \<union> (set segs - {''..''})"
proof (induction segs arbitrary: stack)
  case Nil
  then show ?case by simp
next
  case (Cons seg segs)
  show ?case
  proof (cases "seg = [] \<or> seg = ''.''")
    case True
    then show ?thesis using Cons.IH [of stack] by auto
  next
    case False
    show ?thesis
    proof (cases "seg = ''..''")
      case True
      show ?thesis
      proof (cases stack)
        case Nil
        then show ?thesis using True Cons.IH [of "[]"] by auto
      next
        case (Cons prev below)
        show ?thesis
        proof (cases "prev = ''..''")
          case True
          then show ?thesis using \<open>seg = ''..''\<close> Cons Cons.IH [of "''..'' # stack"] by auto
        next
          case False
          then show ?thesis using \<open>seg = ''..''\<close> Cons Cons.IH [of below] by auto
        qed
      qed
    next
      case False
      then show ?thesis using \<open>\<not> (seg = [] \<or> seg = ''.'')\<close> Cons.IH [of "seg # stack"] by auto
    qed
  qed
qed

lemma resolve_loop_absolute:
  "ps \<noteq> [] \<Longrightarrow> isAbsolute (last ps) \<Longrightarrow> snd (resolve_loop ps acc)"
proof (induction ps arbitrary: acc)
  case Nil
  then show ?case by simp
next
  case (Cons p ps)
  show ?case
  proof (cases "ps = []")
    case True
    with Cons.prems show ?thesis by (auto simp add: isAbsolute_def startsWith_def)
  next
    case False
    with Cons show ?thesis by simp
  qed
qed

lemma path_resolve_no_dotdot:
  assumes "isAbsolute (cwd e)"
  shows "''..'' \<notin> set (split_char CHR ''/'' (path_resolve e args))"
proof -
  obtain rp ab where r: "resolve_loop (rev args @ [cwd e]) [] = (rp, ab)"
    by (cases "resolve_loop (rev args @ [cwd e]) []")
  have "snd (resolve_loop (rev args @ [cwd e]) [])"
    using assms by (intro resolve_loop_absolute) simp_all
  with r have ab: "ab" by simp
  let ?segs = "normalize_segs False [] (split_char CHR ''/'' rp)"
  have pr: "path_resolve e args = CHR ''/'' # join_with ''/'' ?segs"
    using r ab by (simp add: path_resolve_def normalizeString_def)
  have nd: "''..'' \<notin> set ?segs" using normalize_segs_subset [of "[]" "split_char CHR ''/'' rp"] by auto
  have ns: "\<forall>s\<in>set ?segs. CHR ''/'' \<notin> set s"
    using normalize_segs_subset [of "[]" "split_char CHR ''/'' rp"] split_char_no_sep [of "CHR ''/''" rp]
    by auto
  show ?thesis
  proof (cases "?segs = []")
    case True
    then show ?thesis unfolding pr by simp
  next
    case False
    then have "split_char CHR ''/'' (join_with ''/'' ?segs) = ?segs"
      using ns by (intro split_char_join) simp_all
    then show ?thesis unfolding pr using nd by simp
  qed
qed

section \<open>Facts about the loop over the items\<close>

lemma getGraffiti_cases:
  "getGraffiti e w =
     (if DATA_FILE w = Malformed then (Inl SyntaxError, w)
      else (Inr (Array_sort (by_createdAt e) (stored_items w)), ensureDataFile w))"
  by (cases "DATA_FILE w") (simp_all add: getGraffiti_def ensureDataFile_def stored_items_def)

lemma ensureDataFile_frame:
  "files (ensureDataFile w) = files w"
  "fs_reads (ensureDataFile w) = fs_reads w"
  "composite_calls (ensureDataFile w) = composite_calls w"
  "stored_items (ensureDataFile w) = stored_items w"
  "DATA_FILE (ensureDataFile w) \<noteq> Absent"
  "(DATA_FILE (ensureDataFile w) = Malformed) = (DATA_FILE w = Malformed)"
  "ensureDataFile (ensureDataFile w) = ensureDataFile w"
  by (cases "DATA_FILE w"; simp add: ensureDataFile_def stored_items_def)+

lemma loadImageSource_frame:
  assumes "isAbsolute (cwd e)" and "loadImageSource e url w = (src, w1)"
  shows "DATA_FILE w1 = DATA_FILE w \<and> files w1 = files w \<and>
         composite_calls w1 = composite_calls w \<and>
         (fs_reads w1 = fs_reads w \<or>
          (\<exists>p. fs_reads w1 = fs_reads w @ [p] \<and> confined e p))"
  using assms(2) path_resolve_no_dotdot [OF assms(1)]
  by (auto simp add: loadImageSource_def Let_def confined_def split: option.splits if_splits)

lemma loadImageSource_files:
  "files w = files v \<Longrightarrow> fst (loadImageSource e url w) = fst (loadImageSource e url v)"
  by (auto simp add: loadImageSource_def Let_def split: option.splits if_splits)

lemma item_overlay_frame:
  assumes "isAbsolute (cwd e)" and "item_overlay e W H item w = (out, w1)"
  shows "DATA_FILE w1 = DATA_FILE w \<and> files w1 = files w \<and>
         composite_calls w1 = composite_calls w \<and>
         (fs_reads w1 = fs_reads w \<or>
          (\<exists>p. fs_reads w1 = fs_reads w @ [p] \<and> confined e p))"
proof (cases item)
  case (GraffitiText i tx fnt col pos sz rot opa created)
  with assms(2) show ?thesis by (simp add: item_overlay_def)
next
  case (GraffitiImage i url pos dims rot opa created)
  obtain src w2 where l: "loadImageSource e url w = (src, w2)" by (cases "loadImageSource e url w")
  have "w1 = w2"
    using assms(2) GraffitiImage l
    by (auto simp add: item_overlay_def Let_def split: option.splits prod.splits)
  with loadImageSource_frame [OF assms(1) l] show ?thesis by simp
qed

lemma item_overlay_keeps:
  assumes "item_overlay e W H item w = (out, w1)"
  shows "DATA_FILE w1 = DATA_FILE w \<and> files w1 = files w \<and>
         composite_calls w1 = composite_calls w"
  using assms
  by (cases item)
     (auto simp add: item_overlay_def loadImageSource_def Let_def
       split: option.splits prod.splits if_splits)

lemma item_overlay_files:
  "files w = files v \<Longrightarrow> fst (item_overlay e W H item w) = fst (item_overlay e W H item v)"
proof (cases item)
  case (GraffitiText i tx fnt col pos sz rot opa created)
  then show ?thesis by (simp add: item_overlay_def)
next
  case (GraffitiImage i url pos dims rot opa created)
  assume f: "files w = files v"
  obtain s1 w1 where a: "loadImageSource e url w = (s1, w1)" by (cases "loadImageSource e url w")
  obtain s2 w2 where b: "loadImageSource e url v = (s2, w2)" by (cases "loadImageSource e url v")
  have "s1 = s2" using loadImageSource_files [OF f, of e url] a b by simp
  then show ?thesis using GraffitiImage a b
    by (simp add: item_overlay_def Let_def split: option.splits prod.splits)
qed

lemma compose_items_frame:
  assumes abs: "isAbsolute (cwd e)" and "compose_items e W H items ovs k w = (res, w1)"
  shows "DATA_FILE w1 = DATA_FILE w \<and> files w1 = files w \<and>
         composite_calls w1 = composite_calls w \<and>
         (\<exists>new. fs_reads w1 = fs_reads w @ new \<and> (\<forall>p\<in>set new. confined e p))"
  using assms(2)
proof (induction items arbitrary: ovs k w)
  case Nil
  then show ?case by simp
next
  case (Cons item items)
  obtain out w2 where io: "item_overlay e W H item w = (out, w2)"
    by (cases "item_overlay e W H item w")
  note f = item_overlay_frame [OF abs io]
  from f obtain n1 where n1: "fs_reads w2 = fs_reads w @ n1" "\<forall>p\<in>set n1. confined e p"
    by (metis append_Nil2 empty_iff empty_set set_ConsD)
  show ?case
  proof (cases out)
    case (Overlay ov)
    with Cons.prems io have "compose_items e W H items (ovs @ [ov]) k w2 = (res, w1)" by simp
    from Cons.IH [OF this] f n1 show ?thesis by auto
  next
    case Skipped
    with Cons.prems io have "compose_items e W H items ovs (k + 1) w2 = (res, w1)" by simp
    from Cons.IH [OF this] f n1 show ?thesis by auto
  next
    case (Failed err)
    with Cons.prems io have "w1 = w2" by simp
    with f n1 show ?thesis by auto
  qed
qed

lemma compose_items_result:
  assumes "compose_items e W H items ovs k w = (Inr (ovs1, k1), w1)"
  shows "ovs1 = ovs @ concat (map (\<lambda>item. case fst (item_overlay e W H item w) of
                                          Overlay ov \<Rightarrow> [ov] | _ \<Rightarrow> []) items) \<and>
         k1 = k + length (filter (\<lambda>item. fst (item_overlay e W H item w) = Skipped) items)"
  using assms
proof (induction items arbitrary: ovs k w)
  case Nil
  then show ?case by simp
next
  case (Cons item items)
  obtain out w2 where io: "item_overlay e W H item w = (out, w2)"
    by (cases "item_overlay e W H item w")
  have fw: "files w2 = files w" using item_overlay_keeps [OF io] by simp
  have same: "fst (item_overlay e W H it w2) = fst (item_overlay e W H it w)" for it
    using item_overlay_files [OF fw] by simp
  show ?case
  proof (cases out)
    case (Overlay ov)
    with Cons.prems io have "compose_items e W H items (ovs @ [ov]) k w2 = (Inr (ovs1, k1), w1)" by simp
    from Cons.IH [OF this] show ?thesis using io Overlay by (simp add: same)
  next
    case Skipped
    with Cons.prems io have "compose_items e W H items ovs (k + 1) w2 = (Inr (ovs1, k1), w1)" by simp
    from Cons.IH [OF this] show ?thesis using io Skipped by (simp add: same)
  next
    case (Failed err)
    with Cons.prems io show ?thesis by simp
  qed
qed

lemma compose_items_succeeds:
  assumes "\<forall>item\<in>set items. \<forall>err. fst (item_overlay e W H item w) \<noteq> Failed err"
  shows "\<exists>ovs1 k1 w1. compose_items e W H items ovs k w = (Inr (ovs1, k1), w1)"
  using assms
proof (induction items arbitrary: ovs k w)
  case Nil
  then show ?case by simp
next
  case (Cons item items)
  obtain out w2 where io: "item_overlay e W H item w = (out, w2)"
    by (cases "item_overlay e W H item w")
  have fw: "files w2 = files w" using item_overlay_keeps [OF io] by simp
  have same: "fst (item_overlay e W H it w2) = fst (item_overlay e W H it w)" for it
    using item_overlay_files [OF fw] by simp
  have rest: "\<forall>item\<in>set items. \<forall>err. fst (item_overlay e W H item w2) \<noteq> Failed err"
    using Cons.prems by (simp add: same)
  show ?case
  proof (cases out)
    case (Overlay ov)
    with io Cons.IH [OF rest, of "ovs @ [ov]" k] show ?thesis by simp
  next
    case Skipped
    with io Cons.IH [OF rest, of ovs "k + 1"] show ?thesis by simp
  next
    case (Failed err)
    with io Cons.prems show ?thesis by (metis fst_conv list.set_intros(1))
  qed
qed

section \<open>Facts about the key of a snapshot\<close>

lemma foldl_latest:
  "foldl (\<lambda>latest item.
              case Date_parse e (createdAt item) of
                None \<Rightarrow> latest
              | Some parsed \<Rightarrow>
                  (case latest of
                     None \<Rightarrow> Some parsed
                   | Some l \<Rightarrow> if parsed > l then Some parsed else latest))
           acc items =
         (case acc of
            None \<Rightarrow> if parsed_times e items = [] then None
                    else Some (Max (set (parsed_times e items)))
          | Some l \<Rightarrow> Some (Max (insert l (set (parsed_times e items)))))"
proof (induction items arbitrary: acc)
  case Nil
  then show ?case by (simp add: parsed_times_def split: option.splits)
next
  case (Cons a items)
  let ?T = "set (parsed_times e items)"
  have fin: "finite ?T" by simp
  show ?case
  proof (cases "Date_parse e (createdAt a)")
    case None
    then have pn: "parsed_times e (a # items) = parsed_times e items"
      by (simp add: parsed_times_def)
    show ?thesis unfolding pn using None Cons.IH [of acc] by simp
  next
    case (Some p)
    then have pc: "parsed_times e (a # items) = p # parsed_times e items"
      by (simp add: parsed_times_def)
    show ?thesis
    proof (cases acc)
      case None
      then show ?thesis using Some Cons.IH [of "Some p"] by (simp add: pc)
    next
      case (Some l)
      show ?thesis
      proof (cases "p > l")
        case True
        have "Max (insert l (insert p ?T)) = max l (Max (insert p ?T))"
          using fin by (intro Max_insert) auto
        moreover have "p \<le> Max (insert p ?T)" using fin by simp
        ultimately have "Max (insert l (insert p ?T)) = Max (insert p ?T)"
          using True by linarith
        then show ?thesis
          using \<open>Date_parse e (createdAt a) = Some p\<close> Some True Cons.IH [of "Some p"]
          by (simp add: pc)
      next
        case False
        have "Max (insert l (insert p ?T)) = Max (insert l ?T)"
        proof -
          have a: "insert l (insert p ?T) = insert p (insert l ?T)" by auto
          have b: "Max (insert p (insert l ?T)) = max p (Max (insert l ?T))"
            using fin by (intro Max_insert) auto
          have c: "l \<le> Max (insert l ?T)" using fin by simp
          have "Max (insert l (insert p ?T)) = max p (Max (insert l ?T))"
            unfolding a by (rule b)
          moreover have "p \<le> Max (insert l ?T)" using c False by linarith
          ultimately show ?thesis by linarith
        qed
        then show ?thesis
          using \<open>Date_parse e (createdAt a) = Some p\<close> Some False Cons.IH [of "Some l"]
          by (simp add: pc)
      qed
    qed
  qed
qed

lemma snapshot_key_latest:
  "snapshot_key e items =
     (if parsed_times e items = [] then ''empty''
      else String_of_int (Max (set (parsed_times e items))))"
  unfolding snapshot_key_def latestChangeMs_def by (simp add: foldl_latest)

section \<open>Facts about generateWallSnapshot\<close>

lemma getGraffiti_again:
  "getGraffiti e w = (Inr items, w0) \<Longrightarrow> getGraffiti e w0 = (Inr items, w0)"
  by (auto simp add: getGraffiti_cases ensureDataFile_frame split: if_splits)

lemma getGraffiti_same_items:
  assumes "DATA_FILE v = DATA_FILE w0" and "getGraffiti e w0 = (Inr items, w0)"
  shows "getGraffiti e v = (Inr items, v)"
proof -
  have "DATA_FILE w0 \<noteq> Malformed" "DATA_FILE w0 \<noteq> Absent"
    using assms(2) by (auto simp add: getGraffiti_def Let_def ensureDataFile_def split: data_file.splits if_splits)
  then have "ensureDataFile v = v" "ensureDataFile w0 = w0" "stored_items v = stored_items w0"
    using assms(1) by (simp_all add: ensureDataFile_def stored_items_def)
  then show ?thesis using assms \<open>DATA_FILE w0 \<noteq> Malformed\<close> by (simp add: getGraffiti_cases)
qed

lemma generateWallSnapshot_hit:
  assumes "getGraffiti e w = (Inr items, w0)"
    and "files w0 (path_join [SNAPSHOT_DIR e, snapshot_fileName (snapshot_key e items)]) = Some bytes"
    and "sharp_metadata e bytes = Some meta"
  shows "generateWallSnapshot e w =
           (Inr \<lparr>snapshot_imageUrl = ''/uploads/snapshots/'' @ snapshot_fileName (snapshot_key e items),
                 snapshot_width = (case md_width meta of Some n \<Rightarrow> n | None \<Rightarrow> 0),
                 snapshot_height = (case md_height meta of Some n \<Rightarrow> n | None \<Rightarrow> 0),
                 itemCount = length items,
                 skippedImages = 0,
                 fromCache = True,
                 snapshotKey = snapshot_key e items\<rparr>, w0)"
  using assms by (simp add: generateWallSnapshot_def Let_def)

lemma render_snapshot_Inr:
  assumes "render_snapshot e items key w0 = (Inr r, w1)"
  shows "\<exists>bgPath bgBuf md W H ovs k wc out.
           resolveBackgroundPath e w0 = Inr bgPath \<and> files w0 bgPath = Some bgBuf \<and>
           sharp_metadata e bgBuf = Some md \<and> md_width md = Some W \<and> md_height md = Some H \<and>
           W \<noteq> 0 \<and> H \<noteq> 0 \<and>
           compose_items e W H items [] 0 w0 = (Inr (ovs, k), wc) \<and>
           sharp_composite e bgBuf ovs = Some out \<and>
           r = \<lparr>snapshot_imageUrl = ''/uploads/snapshots/'' @ snapshot_fileName key,
                snapshot_width = W, snapshot_height = H, itemCount = length items,
                skippedImages = k, fromCache = False, snapshotKey = key\<rparr> \<and>
           w1 = wc\<lparr>composite_calls := composite_calls wc + 1,
                   files := (files wc)(path_join [SNAPSHOT_DIR e, snapshot_fileName key] \<mapsto> out)\<rparr>"
  using assms
  by (auto simp add: render_snapshot_def Let_def
      split: sum.splits option.splits prod.splits if_splits)

lemma render_snapshot_succeeds:
  assumes "resolveBackgroundPath e w0 = Inr bgPath" and "files w0 bgPath = Some bgBuf"
    and "sharp_metadata e bgBuf = Some md" and "md_width md = Some W" and "md_height md = Some H"
    and "W \<noteq> 0" and "H \<noteq> 0"
    and "compose_items e W H items [] 0 w0 = (Inr (ovs, k), wc)"
    and "sharp_composite e bgBuf ovs = Some out"
  shows "render_snapshot e items key w0 =
           (Inr \<lparr>snapshot_imageUrl = ''/uploads/snapshots/'' @ snapshot_fileName key,
                snapshot_width = W, snapshot_height = H, itemCount = length items,
                skippedImages = k, fromCache = False, snapshotKey = key\<rparr>,
            wc\<lparr>composite_calls := composite_calls wc + 1,
                   files := (files wc)(path_join [SNAPSHOT_DIR e, snapshot_fileName key] \<mapsto> out)\<rparr>)"
  using assms by (simp add: render_snapshot_def Let_def)

lemma generateWallSnapshot_Inr:
  assumes "generateWallSnapshot e w = (Inr r, w1)"
  shows "\<exists>items w0. getGraffiti e w = (Inr items, w0) \<and> snapshotKey r = snapshot_key e items \<and>
           itemCount r = length items \<and>
           ((fromCache r \<and> w1 = w0 \<and> skippedImages r = 0 \<and>
             (\<exists>bytes meta.
                files w0 (path_join [SNAPSHOT_DIR e, snapshot_fileName (snapshot_key e items)]) = Some bytes \<and>
                sharp_metadata e bytes = Some meta)) \<or>
            (\<not> fromCache r \<and> render_snapshot e items (snapshot_key e items) w0 = (Inr r, w1)))"
proof -
  obtain res w0 where g: "getGraffiti e w = (res, w0)" by (cases "getGraffiti e w")
  with assms obtain items where i: "res = Inr items"
    by (cases res) (auto simp add: generateWallSnapshot_def)
  let ?out = "path_join [SNAPSHOT_DIR e, snapshot_fileName (snapshot_key e items)]"
  show ?thesis
  proof (cases "case files w0 ?out of None \<Rightarrow> None | Some bytes \<Rightarrow> sharp_metadata e bytes")
    case None
    then have rs: "render_snapshot e items (snapshot_key e items) w0 = (Inr r, w1)"
      using assms g i by (simp add: generateWallSnapshot_def Let_def)
    from render_snapshot_Inr [OF rs] have "\<not> fromCache r \<and> snapshotKey r = snapshot_key e items \<and> itemCount r = length items"
      by auto
    with rs g i show ?thesis by blast
  next
    case (Some meta)
    then obtain bytes where b: "files w0 ?out = Some bytes" "sharp_metadata e bytes = Some meta"
      by (auto split: option.splits)
    from generateWallSnapshot_hit [OF g [unfolded i] b] assms g i b show ?thesis by auto
  qed
qed

lemma compose_items_keeps:
  assumes "compose_items e W H items ovs k w = (res, w1)"
  shows "DATA_FILE w1 = DATA_FILE w \<and> files w1 = files w \<and> composite_calls w1 = composite_calls w"
  using assms
proof (induction items arbitrary: ovs k w)
  case Nil
  then show ?case by simp
next
  case (Cons item items)
  obtain out w2 where io: "item_overlay e W H item w = (out, w2)"
    by (cases "item_overlay e W H item w")
  note f = item_overlay_keeps [OF io]
  show ?case
  proof (cases out)
    case (Overlay ov)
    with Cons.prems io have "compose_items e W H items (ovs @ [ov]) k w2 = (res, w1)" by simp
    from Cons.IH [OF this] f show ?thesis by simp
  next
    case Skipped
    with Cons.prems io have "compose_items e W H items ovs (k + 1) w2 = (res, w1)" by simp
    from Cons.IH [OF this] f show ?thesis by simp
  next
    case (Failed err)
    with Cons.prems io have "w1 = w2" by simp
    with f show ?thesis by simp
  qed
qed

lemma item_overlay_Skipped:
  "(fst (item_overlay e W H item w) = Skipped) = unresolved e w item"
  by (cases item)
     (auto simp add: item_overlay_def unresolved_def Let_def split: option.splits prod.splits)

lemma length_getGraffiti:
  "getGraffiti e w = (Inr items, w0) \<Longrightarrow> length items = length (stored_items w)"
  by (metis getGraffiti_Inr mset_Array_sort size_mset)

lemma second_call_hits:
  assumes k: "composite_keeps_size e" and g: "generateWallSnapshot e w = (Inr r1, w1)"
  shows "\<exists>r2. generateWallSnapshot e w1 = (Inr r2, w1) \<and> fromCache r2 \<and>
              snapshotKey r2 = snapshotKey r1 \<and>
              snapshot_width r2 = snapshot_width r1 \<and>
              snapshot_height r2 = snapshot_height r1"
proof -
  from generateWallSnapshot_Inr [OF g] obtain items w0 where
    gg: "getGraffiti e w = (Inr items, w0)" and key: "snapshotKey r1 = snapshot_key e items"
    and cases: "(fromCache r1 \<and> w1 = w0 \<and> skippedImages r1 = 0 \<and>
             (\<exists>bytes meta.
                files w0 (path_join [SNAPSHOT_DIR e, snapshot_fileName (snapshot_key e items)]) = Some bytes \<and>
                sharp_metadata e bytes = Some meta)) \<or>
            (\<not> fromCache r1 \<and> render_snapshot e items (snapshot_key e items) w0 = (Inr r1, w1))"
    by blast
  let ?out = "path_join [SNAPSHOT_DIR e, snapshot_fileName (snapshot_key e items)]"
  have g0: "getGraffiti e w0 = (Inr items, w0)" using gg by (rule getGraffiti_again)
  from cases show ?thesis
  proof
    assume h: "fromCache r1 \<and> w1 = w0 \<and> skippedImages r1 = 0 \<and>
             (\<exists>bytes meta. files w0 ?out = Some bytes \<and> sharp_metadata e bytes = Some meta)"
    then obtain bytes meta where b: "files w0 ?out = Some bytes" "sharp_metadata e bytes = Some meta"
      by blast
    from generateWallSnapshot_hit [OF gg b] g generateWallSnapshot_hit [OF g0 b] h
    show ?thesis by auto
  next
    assume h: "\<not> fromCache r1 \<and> render_snapshot e items (snapshot_key e items) w0 = (Inr r1, w1)"
    from render_snapshot_Inr [OF h [THEN conjunct2]] obtain bgPath bgBuf md W H ovs n wc out where
      bg: "sharp_metadata e bgBuf = Some md" "md_width md = Some W" "md_height md = Some H"
      and co: "compose_items e W H items [] 0 w0 = (Inr (ovs, n), wc)"
      and sc: "sharp_composite e bgBuf ovs = Some out"
      and r1: "r1 = \<lparr>snapshot_imageUrl = ''/uploads/snapshots/'' @ snapshot_fileName (snapshot_key e items),
                snapshot_width = W, snapshot_height = H, itemCount = length items,
                skippedImages = n, fromCache = False, snapshotKey = snapshot_key e items\<rparr>"
      and w1: "w1 = wc\<lparr>composite_calls := composite_calls wc + 1,
                   files := (files wc)(?out \<mapsto> out)\<rparr>"
      by blast
    from k sc bg(1) obtain md1 where
      m1: "sharp_metadata e out = Some md1" "md_width md1 = md_width md" "md_height md1 = md_height md"
      unfolding composite_keeps_size_def by blast
    have "DATA_FILE w1 = DATA_FILE w0" using compose_items_keeps [OF co] w1 by simp
    then have g1: "getGraffiti e w1 = (Inr items, w1)" using g0 by (rule getGraffiti_same_items)
    have f1: "files w1 ?out = Some out" using w1 by simp
    from generateWallSnapshot_hit [OF g1 f1 m1(1)] r1 m1 bg show ?thesis by simp
  qed
qed

lemma render_snapshot_fails:
  assumes "resolveBackgroundPath e w0 = Inr bgPath" and "files w0 bgPath = Some bgBuf"
    and "sharp_metadata e bgBuf = Some md" and "md_width md = Some W" and "md_height md = Some H"
    and "W \<noteq> 0" and "H \<noteq> 0"
    and "compose_items e W H items [] 0 w0 = (Inl err, wc)"
  shows "render_snapshot e items key w0 = (Inl err, wc)"
  using assms by (simp add: render_snapshot_def Let_def)

lemma generateWallSnapshot_miss:
  assumes "getGraffiti e w = (Inr items, w0)"
    and "(case files w0 (path_join [SNAPSHOT_DIR e, snapshot_fileName (snapshot_key e items)]) of
            None \<Rightarrow> None | Some bytes \<Rightarrow> sharp_metadata e bytes) = None"
  shows "generateWallSnapshot e w = render_snapshot e items (snapshot_key e items) w0"
  using assms by (simp add: generateWallSnapshot_def Let_def)

lemma startsWith_slash_no_data_url:
  "startsWith url ''/'' \<Longrightarrow> match_data_url extra url = None"
  by (cases url) (auto simp add: match_data_url_def strip_prefix_def startsWith_def)

lemma render_snapshot_reads:
  assumes abs: "isAbsolute (cwd e)" and "render_snapshot e items key w0 = (res, w1)"
  shows "\<exists>new. fs_reads w1 = fs_reads w0 @ new \<and> (\<forall>p\<in>set new. confined e p)"
proof (cases "\<exists>bgPath bgBuf md W H. resolveBackgroundPath e w0 = Inr bgPath \<and>
                files w0 bgPath = Some bgBuf \<and> sharp_metadata e bgBuf = Some md \<and>
                md_width md = Some W \<and> md_height md = Some H \<and> W \<noteq> 0 \<and> H \<noteq> 0")
  case False
  then have "w1 = w0"
    using assms(2)
    by (auto simp add: render_snapshot_def Let_def split: sum.splits option.splits if_splits)
  then show ?thesis by simp
next
  case True
  then obtain bgPath bgBuf md W H where
    bg: "resolveBackgroundPath e w0 = Inr bgPath" "files w0 bgPath = Some bgBuf"
      "sharp_metadata e bgBuf = Some md" "md_width md = Some W" "md_height md = Some H"
      "W \<noteq> 0" "H \<noteq> 0" by blast
  obtain cres wc where co: "compose_items e W H items [] 0 w0 = (cres, wc)"
    by (cases "compose_items e W H items [] 0 w0")
  from compose_items_frame [OF abs co] obtain new where
    n: "fs_reads wc = fs_reads w0 @ new" "\<forall>p\<in>set new. confined e p" by blast
  have "fs_reads w1 = fs_reads wc"
    using assms(2) bg co
    by (auto simp add: render_snapshot_def Let_def split: sum.splits option.splits prod.splits)
  with n show ?thesis by simp
qed

lemma generateWallSnapshot_reads:
  assumes abs: "isAbsolute (cwd e)" and "generateWallSnapshot e w = (res, w1)"
  shows "\<exists>new. fs_reads w1 = fs_reads w @ new \<and> (\<forall>p\<in>set new. confined e p)"
proof (cases "DATA_FILE w = Malformed")
  case True
  then have "w1 = w" using assms(2) by (simp add: generateWallSnapshot_def getGraffiti_cases)
  then show ?thesis by simp
next
  case False
  let ?items = "Array_sort (by_createdAt e) (stored_items w)"
  let ?w0 = "ensureDataFile w"
  have g: "getGraffiti e w = (Inr ?items, ?w0)" using False by (simp add: getGraffiti_cases)
  show ?thesis
  proof (cases "case files ?w0 (path_join [SNAPSHOT_DIR e, snapshot_fileName (snapshot_key e ?items)]) of
                  None \<Rightarrow> None | Some bytes \<Rightarrow> sharp_metadata e bytes")
    case None
    from generateWallSnapshot_miss [OF g None] assms(2)
    have "render_snapshot e ?items (snapshot_key e ?items) ?w0 = (res, w1)" by simp
    from render_snapshot_reads [OF abs this] show ?thesis by (simp add: ensureDataFile_frame)
  next
    case (Some meta)
    then have "w1 = ?w0" using assms(2) g by (simp add: generateWallSnapshot_def Let_def)
    then show ?thesis by (simp add: ensureDataFile_frame)
  qed
qed

lemma escaping_source_rejected:
  assumes "startsWith url ''/''"
    and "\<not> startsWith (path_resolve e [PUBLIC_DIR e, dropWhile (\<lambda>c. c = CHR ''/'') url])
                      (path_resolve e [PUBLIC_DIR e] @ ''/'')"
  shows "loadImageSource e url w = (None, w) \<and>
         item_overlay e W H (GraffitiImage i url pos dims rot opa created) w = (Skipped, w)"
proof -
  have "loadImageSource e url w = (None, w)"
    using assms by (simp add: loadImageSource_def startsWith_slash_no_data_url Let_def)
  then show ?thesis by (simp add: item_overlay_def)
qed

section \<open>Facts about calls in turn\<close>

lemma snd_addGraffiti_readable:
  "DATA_FILE w \<noteq> Malformed \<Longrightarrow>
   snd (addGraffiti e uuid now item w) =
     w\<lparr>DATA_FILE := Stored (Array_sort (by_createdAt e) (stored_items w) @ [stamp item uuid now])\<rparr>"
  by (simp add: addGraffiti_def getGraffiti_readable Let_def)

lemma addGraffiti_each_mset:
  "DATA_FILE w \<noteq> Malformed \<Longrightarrow>
   DATA_FILE (addGraffiti_each e inputs w) \<noteq> Malformed \<and>
   mset (stored_items (addGraffiti_each e inputs w)) =
     mset (stored_items w) + mset (map (\<lambda>(uuid, now, item). stamp item uuid now) inputs)"
proof (induction inputs arbitrary: w)
  case Nil
  then show ?case by simp
next
  case (Cons a inputs)
  obtain uuid now item where a: "a = (uuid, now, item)" by (cases a) auto
  let ?w1 = "snd (addGraffiti e uuid now item w)"
  have w1: "?w1 = w\<lparr>DATA_FILE := Stored (Array_sort (by_createdAt e) (stored_items w) @ [stamp item uuid now])\<rparr>"
    using Cons.prems by (rule snd_addGraffiti_readable)
  then have r: "DATA_FILE ?w1 \<noteq> Malformed" by simp
  have m: "mset (stored_items ?w1) = mset (stored_items w) + {#stamp item uuid now#}"
    unfolding w1 by (simp add: stored_items_def mset_Array_sort)
  from Cons.IH [OF r] show ?case unfolding a by (simp add: m)
qed

lemma item_id_stamp: "item_id (stamp item uuid now) = uuid"
  by (cases item) simp_all

lemma map_item_id_stamp:
  "map item_id (map (\<lambda>(uuid, now, item). stamp item uuid now) inputs) = map fst inputs"
  by (induction inputs) (auto simp add: item_id_stamp)

lemma Array_sort_ties:
  assumes "consistent_comparator (localeCompare e)"
  shows "filter (\<lambda>i. localeCompare e t (createdAt i) = 0) (Array_sort (by_createdAt e) xs) =
         filter (\<lambda>i. localeCompare e t (createdAt i) = 0) xs"
  using Array_sort_stable [OF by_createdAt_consistent [OF assms],
      of "GraffitiText [] [] [] [] \<lparr>pos_x = 0, pos_y = 0\<rparr> 0 0 0 t" xs]
  by (simp add: by_createdAt_def)

lemma addGraffiti_each_ties:
  assumes c: "consistent_comparator (localeCompare e)"
  shows "DATA_FILE w \<noteq> Malformed \<Longrightarrow>
         filter (\<lambda>i. localeCompare e t (createdAt i) = 0)
           (stored_items (addGraffiti_each e inputs w)) =
         filter (\<lambda>i. localeCompare e t (createdAt i) = 0) (stored_items w) @
         filter (\<lambda>i. localeCompare e t (createdAt i) = 0)
           (map (\<lambda>(uuid, now, item). stamp item uuid now) inputs)"
proof (induction inputs arbitrary: w)
  case Nil
  then show ?case by simp
next
  case (Cons a inputs)
  obtain uuid now item where a: "a = (uuid, now, item)" by (cases a) auto
  let ?w1 = "snd (addGraffiti e uuid now item w)"
  have w1: "?w1 = w\<lparr>DATA_FILE := Stored (Array_sort (by_createdAt e) (stored_items w) @ [stamp item uuid now])\<rparr>"
    using Cons.prems by (rule snd_addGraffiti_readable)
  then have r: "DATA_FILE ?w1 \<noteq> Malformed" by simp
  have s: "stored_items ?w1 = Array_sort (by_createdAt e) (stored_items w) @ [stamp item uuid now]"
    unfolding w1 by (simp add: stored_items_def)
  from Cons.IH [OF r] show ?case
    unfolding a by (simp add: s Array_sort_ties [OF c])
qed

lemma run_append: "run e (s1 @ s2) st = run e s2 (run e s1 st)"
proof (induction s1 arbitrary: st)
  case Nil
  then show ?case by simp
next
  case (Cons i s1)
  obtain calls w where st: "st = (calls, w)" by (cases st)
  show ?case unfolding st using Cons.IH by (simp split: prod.splits)
qed

lemma four_steps:
  assumes "DATA_FILE w \<noteq> Malformed"
  shows "run e [length finished, length finished, length finished, length finished]
           (finished @ AtAccess (stamp item uuid now) # others, w) =
         (finished @ Returned (stamp item uuid now) # others, snd (addGraffiti e uuid now item w))"
  using assms
  by (cases "DATA_FILE w")
     (simp_all add: addGraffiti_def getGraffiti_def ensureDataFile_def Let_def)

lemma run_in_turn:
  "DATA_FILE w \<noteq> Malformed \<Longrightarrow>
   run e (concat (map (\<lambda>i. [i, i, i, i]) [length finished ..< length finished + length inputs]))
     (finished @ started inputs, w) =
   (finished @ map (\<lambda>(uuid, now, item). Returned (stamp item uuid now)) inputs,
    addGraffiti_each e inputs w)"
proof (induction inputs arbitrary: finished w)
  case Nil
  then show ?case by (simp add: started_def)
next
  case (Cons a inputs)
  obtain uuid now item where a: "a = (uuid, now, item)" by (cases a) auto
  let ?k = "length finished"
  let ?w1 = "snd (addGraffiti e uuid now item w)"
  have r: "DATA_FILE ?w1 \<noteq> Malformed"
    using snd_addGraffiti_readable [OF Cons.prems, of e uuid now item] by simp
  have u: "[?k ..< ?k + length (a # inputs)] = ?k # [Suc ?k ..< Suc ?k + length inputs]"
    by (subst upt_rec) simp
  have sch: "concat (map (\<lambda>i. [i, i, i, i]) [?k ..< ?k + length (a # inputs)]) =
             [?k, ?k, ?k, ?k] @ concat (map (\<lambda>i. [i, i, i, i]) [Suc ?k ..< Suc ?k + length inputs])"
    unfolding u by simp
  have st: "started (a # inputs) = AtAccess (stamp item uuid now) # started inputs"
    by (simp add: started_def a)
  have "run e (concat (map (\<lambda>i. [i, i, i, i]) [?k ..< ?k + length (a # inputs)]))
          (finished @ started (a # inputs), w) =
        run e (concat (map (\<lambda>i. [i, i, i, i]) [Suc ?k ..< Suc ?k + length inputs]))
          (run e [?k, ?k, ?k, ?k] (finished @ AtAccess (stamp item uuid now) # started inputs, w))"
    by (simp only: sch st run_append)
  also have "\<dots> = run e (concat (map (\<lambda>i. [i, i, i, i]) [Suc ?k ..< Suc ?k + length inputs]))
          ((finished @ [Returned (stamp item uuid now)]) @ started inputs, ?w1)"
    using four_steps [OF Cons.prems, of e finished item uuid now "started inputs"] by simp
  also have "\<dots> = ((finished @ [Returned (stamp item uuid now)]) @
                    map (\<lambda>(uuid, now, item). Returned (stamp item uuid now)) inputs,
                  addGraffiti_each e inputs ?w1)"
    using Cons.IH [OF r, of "finished @ [Returned (stamp item uuid now)]"] by simp
  finally show ?case by (simp add: a)
qed

lemma run_serial:
  "DATA_FILE w \<noteq> Malformed \<Longrightarrow>
   run e (serial_schedule (length inputs)) (started inputs, w) =
   (map (\<lambda>(uuid, now, item). Returned (stamp item uuid now)) inputs, addGraffiti_each e inputs w)"
  using run_in_turn [of w e "[]" inputs] by (simp add: serial_schedule_def)

section \<open>Facts about the session registry\<close>

lemma lookup_transport_None:
  "mcp_session_id req = None \<or> mcp_session_id req = Some [] \<or>
   (\<exists>sid. mcp_session_id req = Some sid \<and> transports reg sid = None)
   \<Longrightarrow> lookup_transport reg req = None"
  by (auto simp add: lookup_transport_def)

lemma mcp_route_rejects:
  assumes "lookup_transport reg req = None" and "\<not> isInitializeRequest req"
  shows "client_error (fst (mcp_route k uuid req reg)) \<and> snd (mcp_route k uuid req reg) = reg"
  using assms
  by (cases "http_method req") (simp_all add: mcp_route_def post_mcp_def get_mcp_def delete_mcp_def)

lemma onclose_no_new:
  "transports (onclose t reg) sid \<noteq> None \<Longrightarrow> transports reg sid \<noteq> None"
  by (auto simp add: onclose_def split: option.splits if_splits)

lemma post_mcp_new_session:
  assumes "transports (snd (post_mcp k uuid req reg)) sid \<noteq> None" and "transports reg sid = None"
  shows "isInitializeRequest req \<and> lookup_transport reg req = None \<and> sid = uuid"
  using assms onclose_no_new [of _ reg sid]
  by (auto simp add: post_mcp_def Let_def split: option.splits if_splits new_outcome.splits live_outcome.splits)

lemma get_mcp_no_new_session:
  "transports (snd (get_mcp k req reg)) sid \<noteq> None \<Longrightarrow> transports reg sid \<noteq> None"
  using onclose_no_new [of _ reg sid]
  by (auto simp add: get_mcp_def split: option.splits live_outcome.splits)

lemma delete_mcp_no_new_session:
  "transports (snd (delete_mcp k req reg)) sid \<noteq> None \<Longrightarrow> transports reg sid \<noteq> None"
  using onclose_no_new [of _ reg sid]
  by (auto simp add: delete_mcp_def split: option.splits live_outcome.splits)

section \<open>The examples, evaluated\<close>

lemma example_dirs:
  "PUBLIC_DIR example_env = ''/app/public''"
  "UPLOAD_DIR example_env = ''/app/public/uploads''"
  "SNAPSHOT_DIR example_env = ''/app/public/uploads/snapshots''"
  by (simp_all add: PUBLIC_DIR_def UPLOAD_DIR_def SNAPSHOT_DIR_def path_join_def path_normalize_def
      normalizeString_def isAbsolute_def startsWith_def example_env_fields Let_def)

lemma example_outPath:
  "path_join [''/app/public/uploads/snapshots'', ''wall-snapshot-1704153600000.png''] =
     ''/app/public/uploads/snapshots/wall-snapshot-1704153600000.png''"
  by (simp add: path_join_def path_normalize_def
      normalizeString_def isAbsolute_def startsWith_def Let_def)

lemma example_key:
  "snapshot_key example_env [tag_a, sticker, tag_b] = ''1704153600000''"
  by (simp add: snapshot_key_def latestChangeMs_def example_env_fields example_Date_parse_def
      tag_a_def tag_b_def sticker_def String_of_int_def)

lemma example_root:
  "path_resolve example_env [''/app/public''] = ''/app/public''"
  by (simp add: path_resolve_def normalizeString_def isAbsolute_def startsWith_def
      example_env_fields Let_def)

lemma example_missing:
  "loadImageSource example_env ''/uploads/missing.png'' w =
     (files w ''/app/public/uploads/missing.png'',
      w\<lparr>fs_reads := fs_reads w @ [''/app/public/uploads/missing.png'']\<rparr>)"
  by (simp add: loadImageSource_def match_data_url_def strip_prefix_def startsWith_def
      example_dirs example_root path_resolve_def normalizeString_def isAbsolute_def
      example_env_fields Let_def)

lemma example_background:
  "resolveBackgroundPath example_env w =
     (if files w ''/app/public/leftys-bg.png'' \<noteq> None then Inr ''/app/public/leftys-bg.png''
      else resolveBackgroundPath example_env w)"
  by (simp add: resolveBackgroundPath_def BACKGROUND_CANDIDATES_def example_dirs
      path_join_def path_normalize_def normalizeString_def isAbsolute_def startsWith_def Let_def)

lemma example_getGraffiti:
  "getGraffiti example_env example_world = (Inr [tag_a, sticker, tag_b], example_world)"
  by (simp add: getGraffiti_def ensureDataFile_def example_world_def example_sorted)

lemma example_snapshot_path:
  "path_join [SNAPSHOT_DIR example_env, snapshot_fileName ''1704153600000''] =
     ''/app/public/uploads/snapshots/wall-snapshot-1704153600000.png''"
  by (simp add: example_dirs snapshot_fileName_def example_outPath)

lemma example_compose:
  "compose_items example_env 1000 800 [tag_a, sticker, tag_b] [] 0 example_world =
     (Inr ([TextOverlay (textOverlaySvg tag_a 1000 800),
            TextOverlay (textOverlaySvg tag_b 1000 800)], 1),
      example_world\<lparr>fs_reads := [''/app/public/uploads/missing.png'']\<rparr>)"
  by (simp add: item_overlay_def tag_a_def tag_b_def sticker_def example_missing
      example_world_def example_files_def)

lemma example_first_render:
  "generateWallSnapshot example_env example_world =
     (Inr \<lparr>snapshot_imageUrl = ''/uploads/snapshots/wall-snapshot-1704153600000.png'',
           snapshot_width = 1000, snapshot_height = 800, itemCount = 3, skippedImages = 1,
           fromCache = False, snapshotKey = ''1704153600000''\<rparr>, rendered_world)"
proof -
  note g = example_getGraffiti
  have miss: "(case files example_world
                 (path_join [SNAPSHOT_DIR example_env,
                             snapshot_fileName (snapshot_key example_env [tag_a, sticker, tag_b])]) of
            None \<Rightarrow> None | Some bytes \<Rightarrow> sharp_metadata example_env bytes) = None"
    unfolding example_key example_snapshot_path
    by (simp add: example_world_def example_files_def)
  have bg: "resolveBackgroundPath example_env example_world = Inr ''/app/public/leftys-bg.png''"
    by (subst example_background) (simp add: example_world_def example_files_def)
  have f: "files example_world ''/app/public/leftys-bg.png'' = Some ''PNG background''"
    by (simp add: example_world_def example_files_def)
  have m: "sharp_metadata example_env ''PNG background'' =
             Some \<lparr>md_width = Some 1000, md_height = Some 800\<rparr>"
    by (simp add: example_env_fields startsWith_def)
  have sc: "sharp_composite example_env ''PNG background''
              [TextOverlay (textOverlaySvg tag_a 1000 800),
               TextOverlay (textOverlaySvg tag_b 1000 800)] = Some ''PNG2''"
    by (simp add: example_env_fields startsWith_def)
  have "render_snapshot example_env [tag_a, sticker, tag_b] ''1704153600000'' example_world =
          (Inr \<lparr>snapshot_imageUrl = ''/uploads/snapshots/'' @ snapshot_fileName ''1704153600000'',
                snapshot_width = 1000, snapshot_height = 800,
                itemCount = length [tag_a, sticker, tag_b],
                skippedImages = 1, fromCache = False, snapshotKey = ''1704153600000''\<rparr>,
           (example_world\<lparr>fs_reads := [''/app/public/uploads/missing.png'']\<rparr>)
             \<lparr>composite_calls :=
                composite_calls (example_world\<lparr>fs_reads := [''/app/public/uploads/missing.png'']\<rparr>) + 1,
              files := (files (example_world\<lparr>fs_reads := [''/app/public/uploads/missing.png'']\<rparr>))
                (path_join [SNAPSHOT_DIR example_env, snapshot_fileName ''1704153600000''] \<mapsto> ''PNG2'')\<rparr>)"
    by (rule render_snapshot_succeeds [OF bg f m _ _ _ _ example_compose sc]) simp_all
  then have "render_snapshot example_env [tag_a, sticker, tag_b] ''1704153600000'' example_world =
     (Inr \<lparr>snapshot_imageUrl = ''/uploads/snapshots/wall-snapshot-1704153600000.png'',
           snapshot_width = 1000, snapshot_height = 800, itemCount = 3, skippedImages = 1,
           fromCache = False, snapshotKey = ''1704153600000''\<rparr>, rendered_world)"
    unfolding example_snapshot_path
    by (simp add: snapshot_fileName_def example_world_def rendered_world_def)
  with generateWallSnapshot_miss [OF g miss] show ?thesis by (simp add: example_key)
qed

lemma example_second_render:
  "generateWallSnapshot example_env rendered_world =
     (Inr \<lparr>snapshot_imageUrl = ''/uploads/snapshots/wall-snapshot-1704153600000.png'',
           snapshot_width = 1000, snapshot_height = 800, itemCount = 3, skippedImages = 0,
           fromCache = True, snapshotKey = ''1704153600000''\<rparr>, rendered_world)"
proof -
  have g: "getGraffiti example_env rendered_world = (Inr [tag_a, sticker, tag_b], rendered_world)"
    by (simp add: getGraffiti_def ensureDataFile_def rendered_world_def example_sorted)
  have f: "files rendered_world
             (path_join [SNAPSHOT_DIR example_env,
                         snapshot_fileName (snapshot_key example_env [tag_a, sticker, tag_b])]) =
           Some ''PNG2''"
    unfolding example_key example_snapshot_path by (simp add: rendered_world_def)
  have m: "sharp_metadata example_env ''PNG2'' =
             Some \<lparr>md_width = Some 1000, md_height = Some 800\<rparr>"
    by (simp add: example_env_fields startsWith_def)
  from generateWallSnapshot_hit [OF g f m] show ?thesis
    by (simp add: example_key snapshot_fileName_def)
qed

lemma example_bg:
  "files w ''/app/public/leftys-bg.png'' = Some ''PNG background'' \<Longrightarrow>
   resolveBackgroundPath example_env w = Inr ''/app/public/leftys-bg.png''"
  by (subst example_background) simp

lemma example_png_metadata:
  "sharp_metadata example_env ''PNG background'' =
     Some \<lparr>md_width = Some 1000, md_height = Some 800\<rparr>"
  by (simp add: example_env_fields startsWith_def)

lemma example_blob_spray:
  "spray_image example_env ''id-f'' ''id-x'' ''2024-01-01T00:00:01.000Z'' blob_args empty_store =
     (Inr ''spray_image created id-x'', blob_world)"
proof -
  have p: "path_join [UPLOAD_DIR example_env, ''id-f.png''] = ''/app/public/uploads/id-f.png''"
    by (simp add: example_dirs path_join_def path_normalize_def normalizeString_def
        isAbsolute_def startsWith_def Let_def)
  have s: "saveImageBlob example_env ''id-f'' ''AAAA'' empty_store =
             (''/uploads/id-f.png'',
              empty_store\<lparr>files := (files empty_store)
                (''/app/public/uploads/id-f.png'' \<mapsto> [CHR 0x00, CHR 0x00, CHR 0x00])\<rparr>)"
    by (simp add: saveImageBlob_def match_data_url_def strip_prefix_def startsWith_def p
        example_env_fields example_base64_def Let_def)
  have a: "addGraffiti example_env ''id-x'' ''2024-01-01T00:00:01.000Z''
             (NewGraffitiImage ''/uploads/id-f.png'' \<lparr>pos_x = 50, pos_y = 50\<rparr>
                \<lparr>dim_width = 20, dim_height = 20\<rparr> 0 1)
             (empty_store\<lparr>files := (files empty_store)
                (''/app/public/uploads/id-f.png'' \<mapsto> [CHR 0x00, CHR 0x00, CHR 0x00])\<rparr>) =
           (Inr blob_sticker, blob_world)"
    by (simp add: addGraffiti_def getGraffiti_def ensureDataFile_def empty_store_def
        Array_sort_def blob_world_def blob_sticker_def Let_def)
  show ?thesis
    by (simp add: spray_image_def blob_args_def positionSchema_def dimensionsSchema_def
        percent_def rotation_schema_def opacity_schema_def normalizePercentPair_def
        fractionRange_def s a Let_def)
       (simp add: blob_sticker_def)
qed

lemma example_blob_source:
  "loadImageSource example_env ''/uploads/id-f.png'' w =
     (files w ''/app/public/uploads/id-f.png'',
      w\<lparr>fs_reads := fs_reads w @ [''/app/public/uploads/id-f.png'']\<rparr>)"
  by (simp add: loadImageSource_def match_data_url_def strip_prefix_def startsWith_def
      example_dirs example_root path_resolve_def normalizeString_def isAbsolute_def
      example_env_fields Let_def)

lemma example_blob_path:
  "path_join [SNAPSHOT_DIR example_env, snapshot_fileName ''1704067201000''] =
     ''/app/public/uploads/snapshots/wall-snapshot-1704067201000.png''"
  by (simp add: example_dirs snapshot_fileName_def path_join_def path_normalize_def
      normalizeString_def isAbsolute_def startsWith_def Let_def)

lemma example_blob_render:
  assumes d: "DATA_FILE w = Stored [blob_sticker]" and fw: "files w = files blob_world"
  shows "generateWallSnapshot example_env w =
           (Inl (Error ''sharp''),
            w\<lparr>fs_reads := fs_reads w @ [''/app/public/uploads/id-f.png'']\<rparr>)"
proof -
  have g: "getGraffiti example_env w = (Inr [blob_sticker], w)"
    by (simp add: getGraffiti_def ensureDataFile_def d Array_sort_def)
  have k: "snapshot_key example_env [blob_sticker] = ''1704067201000''"
    by (simp add: snapshot_key_def latestChangeMs_def example_env_fields example_Date_parse_def
        blob_sticker_def String_of_int_def)
  have miss: "(case files w
                 (path_join [SNAPSHOT_DIR example_env,
                             snapshot_fileName (snapshot_key example_env [blob_sticker])]) of
            None \<Rightarrow> None | Some bytes \<Rightarrow> sharp_metadata example_env bytes) = None"
    unfolding k example_blob_path by (simp add: fw blob_world_def example_files_def)
  have f: "files w ''/app/public/leftys-bg.png'' = Some ''PNG background''"
    by (simp add: fw blob_world_def example_files_def)
  have b: "files w ''/app/public/uploads/id-f.png'' = Some [CHR 0x00, CHR 0x00, CHR 0x00]"
    by (simp add: fw blob_world_def)
  have co: "compose_items example_env 1000 800 [blob_sticker] [] 0 w =
              (Inl (Error ''sharp''),
               w\<lparr>fs_reads := fs_reads w @ [''/app/public/uploads/id-f.png'']\<rparr>)"
    by (simp add: item_overlay_def blob_sticker_def example_blob_source b
        example_env_fields startsWith_def)
  have "render_snapshot example_env [blob_sticker] ''1704067201000'' w =
          (Inl (Error ''sharp''),
           w\<lparr>fs_reads := fs_reads w @ [''/app/public/uploads/id-f.png'']\<rparr>)"
    by (rule render_snapshot_fails [OF example_bg [OF f] f example_png_metadata _ _ _ _ co])
       simp_all
  with generateWallSnapshot_miss [OF g miss] show ?thesis by (simp add: k)
qed

lemma example_empty_path:
  "path_join [SNAPSHOT_DIR example_env, snapshot_fileName ''empty''] =
     ''/app/public/uploads/snapshots/wall-snapshot-empty.png''"
  by (simp add: example_dirs snapshot_fileName_def path_join_def path_normalize_def
      normalizeString_def isAbsolute_def startsWith_def Let_def)

lemma example_undated_render:
  "generateWallSnapshot example_env undated_world =
     (Inr \<lparr>snapshot_imageUrl = ''/uploads/snapshots/wall-snapshot-empty.png'',
           snapshot_width = 1000, snapshot_height = 800, itemCount = 1, skippedImages = 0,
           fromCache = False, snapshotKey = ''empty''\<rparr>,
      undated_world\<lparr>composite_calls := 1,
        files := example_files
          (''/app/public/uploads/snapshots/wall-snapshot-empty.png'' \<mapsto> ''PNG1'')\<rparr>)"
proof -
  have g: "getGraffiti example_env undated_world = (Inr [undated_tag], undated_world)"
    by (simp add: getGraffiti_def ensureDataFile_def undated_world_def Array_sort_def)
  have k: "snapshot_key example_env [undated_tag] = ''empty''"
    by (simp add: snapshot_key_def latestChangeMs_def example_env_fields example_Date_parse_def
        undated_tag_def)
  have miss: "(case files undated_world
                 (path_join [SNAPSHOT_DIR example_env,
                             snapshot_fileName (snapshot_key example_env [undated_tag])]) of
            None \<Rightarrow> None | Some bytes \<Rightarrow> sharp_metadata example_env bytes) = None"
    unfolding k example_empty_path by (simp add: undated_world_def example_files_def)
  have f: "files undated_world ''/app/public/leftys-bg.png'' = Some ''PNG background''"
    by (simp add: undated_world_def example_files_def)
  have co: "compose_items example_env 1000 800 [undated_tag] [] 0 undated_world =
              (Inr ([TextOverlay (textOverlaySvg undated_tag 1000 800)], 0), undated_world)"
    by (simp add: item_overlay_def undated_tag_def)
  have sc: "sharp_composite example_env ''PNG background''
              [TextOverlay (textOverlaySvg undated_tag 1000 800)] = Some ''PNG1''"
    by (simp add: example_env_fields startsWith_def)
  have "render_snapshot example_env [undated_tag] ''empty'' undated_world =
          (Inr \<lparr>snapshot_imageUrl = ''/uploads/snapshots/'' @ snapshot_fileName ''empty'',
                snapshot_width = 1000, snapshot_height = 800,
                itemCount = length [undated_tag],
                skippedImages = 0, fromCache = False, snapshotKey = ''empty''\<rparr>,
           undated_world
             \<lparr>composite_calls := composite_calls undated_world + 1,
              files := (files undated_world)
                (path_join [SNAPSHOT_DIR example_env, snapshot_fileName ''empty''] \<mapsto> ''PNG1'')\<rparr>)"
    by (rule render_snapshot_succeeds [OF example_bg [OF f] f example_png_metadata _ _ _ _ co sc])
       simp_all
  then have "render_snapshot example_env [undated_tag] ''empty'' undated_world =
     (Inr \<lparr>snapshot_imageUrl = ''/uploads/snapshots/wall-snapshot-empty.png'',
           snapshot_width = 1000, snapshot_height = 800, itemCount = 1, skippedImages = 0,
           fromCache = False, snapshotKey = ''empty''\<rparr>,
      undated_world\<lparr>composite_calls := 1,
        files := example_files
          (''/app/public/uploads/snapshots/wall-snapshot-empty.png'' \<mapsto> ''PNG1'')\<rparr>)"
    unfolding example_empty_path by (simp add: snapshot_fileName_def undated_world_def)
  with generateWallSnapshot_miss [OF g miss] show ?thesis by (simp add: k)
qed

lemma example_empty_render:
  "generateWallSnapshot example_env empty_store =
     (Inr \<lparr>snapshot_imageUrl = ''/uploads/snapshots/wall-snapshot-empty.png'',
           snapshot_width = 1000, snapshot_height = 800, itemCount = 0, skippedImages = 0,
           fromCache = False, snapshotKey = ''empty''\<rparr>,
      empty_store\<lparr>composite_calls := 1,
        files := example_files
          (''/app/public/uploads/snapshots/wall-snapshot-empty.png'' \<mapsto> ''PNG0'')\<rparr>)"
proof -
  have g: "getGraffiti example_env empty_store = (Inr [], empty_store)"
    by (simp add: getGraffiti_def ensureDataFile_def empty_store_def Array_sort_def)
  have k: "snapshot_key example_env [] = ''empty''"
    by (simp add: snapshot_key_def latestChangeMs_def)
  have miss: "(case files empty_store
                 (path_join [SNAPSHOT_DIR example_env,
                             snapshot_fileName (snapshot_key example_env [])]) of
            None \<Rightarrow> None | Some bytes \<Rightarrow> sharp_metadata example_env bytes) = None"
    unfolding k example_empty_path by (simp add: empty_store_def example_files_def)
  have f: "files empty_store ''/app/public/leftys-bg.png'' = Some ''PNG background''"
    by (simp add: empty_store_def example_files_def)
  have co: "compose_items example_env 1000 800 [] [] 0 empty_store = (Inr ([], 0), empty_store)"
    by simp
  have sc: "sharp_composite example_env ''PNG background'' [] = Some ''PNG0''"
    by (simp add: example_env_fields startsWith_def)
  have "render_snapshot example_env [] ''empty'' empty_store =
          (Inr \<lparr>snapshot_imageUrl = ''/uploads/snapshots/'' @ snapshot_fileName ''empty'',
                snapshot_width = 1000, snapshot_height = 800,
                itemCount = length ([] :: GraffitiItem list),
                skippedImages = 0, fromCache = False, snapshotKey = ''empty''\<rparr>,
           empty_store
             \<lparr>composite_calls := composite_calls empty_store + 1,
              files := (files empty_store)
                (path_join [SNAPSHOT_DIR example_env, snapshot_fileName ''empty''] \<mapsto> ''PNG0'')\<rparr>)"
    by (rule render_snapshot_succeeds [OF example_bg [OF f] f example_png_metadata _ _ _ _ co sc])
       simp_all
  then have "render_snapshot example_env [] ''empty'' empty_store =
     (Inr \<lparr>snapshot_imageUrl = ''/uploads/snapshots/wall-snapshot-empty.png'',
           snapshot_width = 1000, snapshot_height = 800, itemCount = 0, skippedImages = 0,
           fromCache = False, snapshotKey = ''empty''\<rparr>,
      empty_store\<lparr>composite_calls := 1,
        files := example_files
          (''/app/public/uploads/snapshots/wall-snapshot-empty.png'' \<mapsto> ''PNG0'')\<rparr>)"
    unfolding example_empty_path by (simp add: snapshot_fileName_def empty_store_def)
  with generateWallSnapshot_miss [OF g miss] show ?thesis by (simp add: k)
qed

lemma example_keeps_size: "composite_keeps_size example_env"
  unfolding composite_keeps_size_def
  by (auto simp add: example_env_fields startsWith_def split: if_splits)

lemma example_item_overlays:
  "fst (item_overlay example_env 1000 800 tag_a example_world) =
     Overlay (TextOverlay (textOverlaySvg tag_a 1000 800))"
  "fst (item_overlay example_env 1000 800 sticker example_world) = Skipped"
  "fst (item_overlay example_env 1000 800 tag_b example_world) =
     Overlay (TextOverlay (textOverlaySvg tag_b 1000 800))"
  by (simp_all add: item_overlay_def tag_a_def tag_b_def sticker_def example_missing
      example_world_def example_files_def)

lemma example_traversal_path:
  "path_resolve example_env [PUBLIC_DIR example_env,
                             dropWhile (\<lambda>c. c = CHR ''/'') ''/../data/graffiti.json''] =
     ''/app/data/graffiti.json''"
  by (simp add: path_resolve_def normalizeString_def isAbsolute_def startsWith_def
      example_dirs example_env_fields Let_def)

section \<open>Concurrent appends\<close>

text \<open>
  Claim C1, as the code has it. \<open>addGraffiti\<close> reads the file, adds its item and writes
  the file, and nothing keeps a second call from reading between the two. What holds
  is this: calls of \<open>addGraffiti\<close> that run one after the other on a store that is
  empty at first all return, and leave a list of as many items as there were calls;
  the ids of the list are the ids generated for the calls, distinct when those are.
\<close>

theorem appends_in_turn_keep_all:
  assumes "consistent_comparator (localeCompare e)"
    and "DATA_FILE w = Absent \<or> DATA_FILE w = Stored []"
    and "distinct (map fst inputs)"
  shows "\<exists>w1 listed w2.
           run e (serial_schedule (length inputs)) (started inputs, w) =
             (map (\<lambda>(uuid, now, item). Returned (stamp item uuid now)) inputs, w1) \<and>
           getGraffiti e w1 = (Inr listed, w2) \<and>
           length listed = length inputs \<and>
           distinct (map item_id listed) \<and>
           set (map item_id listed) = set (map fst inputs)"
proof -
  let ?w = "addGraffiti_each e inputs w"
  let ?new = "map (\<lambda>(uuid, now, item). stamp item uuid now) inputs"
  have r: "DATA_FILE w \<noteq> Malformed" and s: "stored_items w = []"
    using assms(2) by (auto simp add: stored_items_def)
  have run: "run e (serial_schedule (length inputs)) (started inputs, w) =
               (map (\<lambda>(uuid, now, item). Returned (stamp item uuid now)) inputs, ?w)"
    using r by (rule run_serial)
  from addGraffiti_each_mset [OF r, of e inputs]
  have r1: "DATA_FILE ?w \<noteq> Malformed" and m: "mset (stored_items ?w) = mset ?new"
    by (simp_all add: s)
  let ?listed = "Array_sort (by_createdAt e) (stored_items ?w)"
  have g: "getGraffiti e ?w = (Inr ?listed, ?w\<lparr>DATA_FILE := Stored (stored_items ?w)\<rparr>)"
    using r1 by (rule getGraffiti_readable)
  have ml: "mset ?listed = mset ?new" using m by (simp add: mset_Array_sort)
  have ids: "map item_id ?new = map fst inputs"
    by (rule map_item_id_stamp)
  have "mset (map item_id ?listed) = mset (map item_id ?new)"
    using ml by (metis mset_map)
  then have mi: "mset (map item_id ?listed) = mset (map fst inputs)" by (simp only: ids)
  have 1: "length ?listed = length inputs"
    using ml by (metis length_map size_mset)
  have 2: "distinct (map item_id ?listed)"
    using mi assms(3) by (metis mset_eq_imp_distinct_iff)
  have 3: "set (map item_id ?listed) = set (map fst inputs)"
    using mi by (metis mset_eq_setD)
  from run g 1 2 3 show ?thesis by blast
qed

theorem appends_in_turn_keep_all_witness:
  "consistent_comparator (localeCompare example_env) \<and>
   (DATA_FILE empty_store = Absent \<or> DATA_FILE empty_store = Stored []) \<and>
   distinct (map fst two_inputs) \<and>
   (\<exists>w1 listed w2.
      run example_env (serial_schedule 2) (started two_inputs, empty_store) =
        ([Returned first_tag, Returned second_tag], w1) \<and>
      getGraffiti example_env w1 = (Inr listed, w2) \<and>
      length listed = 2 \<and> distinct (map item_id listed) \<and>
      set (map item_id listed) = {''id-1'', ''id-2''})"
proof -
  have c: "consistent_comparator (localeCompare example_env)"
    using cu_consistent by (simp add: example_env_fields)
  have d: "DATA_FILE empty_store = Absent \<or> DATA_FILE empty_store = Stored []"
    by (simp add: empty_store_def)
  have i: "distinct (map fst two_inputs)" by (simp add: two_inputs_def)
  from appends_in_turn_keep_all [OF c d i] obtain w1 listed w2 where
    r: "run example_env (serial_schedule (length two_inputs)) (started two_inputs, empty_store) =
          (map (\<lambda>(uuid, now, item). Returned (stamp item uuid now)) two_inputs, w1)"
    and g: "getGraffiti example_env w1 = (Inr listed, w2)"
    and l: "length listed = length two_inputs"
    and k: "distinct (map item_id listed)"
    and m: "set (map item_id listed) = set (map fst two_inputs)"
    by blast
  have len: "length two_inputs = 2" by (simp add: two_inputs_def)
  have rt: "map (\<lambda>(uuid, now, item). Returned (stamp item uuid now)) two_inputs =
              [Returned first_tag, Returned second_tag]"
    by (simp add: two_inputs_def first_tag_def second_tag_def)
  from r have r2: "run example_env (serial_schedule 2) (started two_inputs, empty_store) =
                     ([Returned first_tag, Returned second_tag], w1)"
    by (simp only: len rt)
  from l have l2: "length listed = 2" by (simp only: len)
  from m have m2: "set (map item_id listed) = {''id-1'', ''id-2''}" by (simp add: two_inputs_def)
  from r2 g l2 k m2 have "\<exists>w1 listed w2.
      run example_env (serial_schedule 2) (started two_inputs, empty_store) =
        ([Returned first_tag, Returned second_tag], w1) \<and>
      getGraffiti example_env w1 = (Inr listed, w2) \<and>
      length listed = 2 \<and> distinct (map item_id listed) \<and>
      set (map item_id listed) = {''id-1'', ''id-2''}" by blast
  with c d i show ?thesis by blast
qed

text \<open>
  Two calls that overlap: each reads the empty file before the other writes. Both
  return their item, and the file, and so the list, holds the second item alone.
\<close>

theorem concurrent_appends_lose_one:
  "run example_env [0, 1, 0, 1, 0, 1] (started two_inputs, empty_store) =
     ([Returned first_tag, Returned second_tag], empty_store\<lparr>DATA_FILE := Stored [second_tag]\<rparr>) \<and>
   getGraffiti example_env (empty_store\<lparr>DATA_FILE := Stored [second_tag]\<rparr>) =
     (Inr [second_tag], empty_store\<lparr>DATA_FILE := Stored [second_tag]\<rparr>)"
  by (simp add: started_def two_inputs_def first_tag_def second_tag_def empty_store_def
      Array_sort_def getGraffiti_def ensureDataFile_def)
section \<open>A snapshot that is there is not made again\<close>

text \<open>
  Claim C2, as the code has it. When the file of the key of the store is in the
  snapshot directory and sharp reads its metadata, \<open>generateWallSnapshot\<close> returns that
  file with the width and the height read from it, the number of items the store
  holds at the call and a count of skipped images of 0, marked \<open>fromCache\<close>; it changes
  no file, loads no source and does not call \<open>composite\<close>. And after a call that returned
  a snapshot, a second call with no append in between returns the same key, width and
  height, marked \<open>fromCache\<close>, and leaves the disk, with its count of \<open>composite\<close> calls,
  as the first call left it (sharp being such that the image \<open>composite\<close> writes has the
  size of its background).
\<close>

theorem snapshot_served_from_cache:
  "(getGraffiti e w = (Inr items, w0) \<and>
    files w (path_join [SNAPSHOT_DIR e, snapshot_fileName (snapshot_key e items)]) = Some bytes \<and>
    sharp_metadata e bytes = Some meta \<longrightarrow>
      generateWallSnapshot e w =
        (Inr \<lparr>snapshot_imageUrl = ''/uploads/snapshots/'' @ snapshot_fileName (snapshot_key e items),
              snapshot_width = (case md_width meta of Some n \<Rightarrow> n | None \<Rightarrow> 0),
              snapshot_height = (case md_height meta of Some n \<Rightarrow> n | None \<Rightarrow> 0),
              itemCount = length items,
              skippedImages = 0,
              fromCache = True,
              snapshotKey = snapshot_key e items\<rparr>, w0) \<and>
      files w0 = files w \<and> fs_reads w0 = fs_reads w \<and> composite_calls w0 = composite_calls w) \<and>
   (composite_keeps_size e \<and> generateWallSnapshot e w = (Inr r1, w1) \<longrightarrow>
      (\<exists>r2. generateWallSnapshot e w1 = (Inr r2, w1) \<and> fromCache r2 \<and>
            snapshotKey r2 = snapshotKey r1 \<and>
            snapshot_width r2 = snapshot_width r1 \<and>
            snapshot_height r2 = snapshot_height r1))"
proof -
  have 1: "generateWallSnapshot e w =
        (Inr \<lparr>snapshot_imageUrl = ''/uploads/snapshots/'' @ snapshot_fileName (snapshot_key e items),
              snapshot_width = (case md_width meta of Some n \<Rightarrow> n | None \<Rightarrow> 0),
              snapshot_height = (case md_height meta of Some n \<Rightarrow> n | None \<Rightarrow> 0),
              itemCount = length items,
              skippedImages = 0,
              fromCache = True,
              snapshotKey = snapshot_key e items\<rparr>, w0) \<and>
      files w0 = files w \<and> fs_reads w0 = fs_reads w \<and> composite_calls w0 = composite_calls w"
    if h: "getGraffiti e w = (Inr items, w0) \<and>
           files w (path_join [SNAPSHOT_DIR e, snapshot_fileName (snapshot_key e items)]) = Some bytes \<and>
           sharp_metadata e bytes = Some meta"
  proof -
    from h have w0: "w0 = ensureDataFile w"
      by (auto simp add: getGraffiti_cases split: if_splits)
    then have f: "files w0 = files w" "fs_reads w0 = fs_reads w" "composite_calls w0 = composite_calls w"
      by (simp_all add: ensureDataFile_frame)
    from h f have "files w0 (path_join [SNAPSHOT_DIR e, snapshot_fileName (snapshot_key e items)]) = Some bytes"
      by simp
    from generateWallSnapshot_hit [OF h [THEN conjunct1] this h [THEN conjunct2, THEN conjunct2]] f
    show ?thesis by simp
  qed
  from 1 second_call_hits show ?thesis by blast
qed

theorem snapshot_served_from_cache_witness:
  "getGraffiti example_env rendered_world = (Inr [tag_a, sticker, tag_b], rendered_world) \<and>
   files rendered_world
     (path_join [SNAPSHOT_DIR example_env,
                 snapshot_fileName (snapshot_key example_env [tag_a, sticker, tag_b])]) = Some ''PNG2'' \<and>
   sharp_metadata example_env ''PNG2'' = Some \<lparr>md_width = Some 1000, md_height = Some 800\<rparr> \<and>
   generateWallSnapshot example_env rendered_world =
     (Inr \<lparr>snapshot_imageUrl = ''/uploads/snapshots/wall-snapshot-1704153600000.png'',
           snapshot_width = 1000, snapshot_height = 800, itemCount = 3, skippedImages = 0,
           fromCache = True, snapshotKey = ''1704153600000''\<rparr>, rendered_world) \<and>
   composite_keeps_size example_env \<and>
   generateWallSnapshot example_env example_world =
     (Inr \<lparr>snapshot_imageUrl = ''/uploads/snapshots/wall-snapshot-1704153600000.png'',
           snapshot_width = 1000, snapshot_height = 800, itemCount = 3, skippedImages = 1,
           fromCache = False, snapshotKey = ''1704153600000''\<rparr>, rendered_world) \<and>
   (\<exists>r2. generateWallSnapshot example_env rendered_world = (Inr r2, rendered_world) \<and>
         fromCache r2 \<and> snapshotKey r2 = ''1704153600000'' \<and>
         snapshot_width r2 = 1000 \<and> snapshot_height r2 = 800)"
proof -
  have g: "getGraffiti example_env rendered_world = (Inr [tag_a, sticker, tag_b], rendered_world)"
    by (simp add: getGraffiti_def ensureDataFile_def rendered_world_def example_sorted)
  have f: "files rendered_world
             (path_join [SNAPSHOT_DIR example_env,
                         snapshot_fileName (snapshot_key example_env [tag_a, sticker, tag_b])]) =
           Some ''PNG2''"
    unfolding example_key example_snapshot_path by (simp add: rendered_world_def)
  have m: "sharp_metadata example_env ''PNG2'' =
             Some \<lparr>md_width = Some 1000, md_height = Some 800\<rparr>"
    by (simp add: example_env_fields startsWith_def)
  have h1: "getGraffiti example_env rendered_world = (Inr [tag_a, sticker, tag_b], rendered_world) \<and>
            files rendered_world
             (path_join [SNAPSHOT_DIR example_env,
                         snapshot_fileName (snapshot_key example_env [tag_a, sticker, tag_b])]) =
              Some ''PNG2'' \<and>
            sharp_metadata example_env ''PNG2'' = Some \<lparr>md_width = Some 1000, md_height = Some 800\<rparr>"
    using g f m by simp
  have h2: "composite_keeps_size example_env \<and>
            generateWallSnapshot example_env example_world =
              (Inr \<lparr>snapshot_imageUrl = ''/uploads/snapshots/wall-snapshot-1704153600000.png'',
                    snapshot_width = 1000, snapshot_height = 800, itemCount = 3, skippedImages = 1,
                    fromCache = False, snapshotKey = ''1704153600000''\<rparr>, rendered_world)"
    using example_keeps_size example_first_render by simp
  note a = snapshot_served_from_cache [THEN conjunct1, THEN mp, OF h1]
  note b = snapshot_served_from_cache [THEN conjunct2, THEN mp, OF h2]
  from a have a1: "generateWallSnapshot example_env rendered_world =
     (Inr \<lparr>snapshot_imageUrl = ''/uploads/snapshots/wall-snapshot-1704153600000.png'',
           snapshot_width = 1000, snapshot_height = 800, itemCount = 3, skippedImages = 0,
           fromCache = True, snapshotKey = ''1704153600000''\<rparr>, rendered_world)"
    by (simp add: example_key snapshot_fileName_def)
  from b have b1: "\<exists>r2. generateWallSnapshot example_env rendered_world = (Inr r2, rendered_world) \<and>
         fromCache r2 \<and> snapshotKey r2 = ''1704153600000'' \<and>
         snapshot_width r2 = 1000 \<and> snapshot_height r2 = 800"
    by simp
  from h1 h2 a1 b1 show ?thesis by blast
qed

text \<open>
  Nothing is recorded with a snapshot but its file: the call that finds the file
  returns counts of its own, not those of the call that rendered it. The store of the
  examples is rendered with one image skipped; the next call returns the same file,
  marked \<open>fromCache\<close>, with no image skipped.
\<close>

theorem cached_snapshot_forgets_skipped_count:
  "\<exists>r1 r2. generateWallSnapshot example_env example_world = (Inr r1, rendered_world) \<and>
           generateWallSnapshot example_env rendered_world = (Inr r2, rendered_world) \<and>
           \<not> fromCache r1 \<and> fromCache r2 \<and>
           snapshot_imageUrl r2 = snapshot_imageUrl r1 \<and> snapshotKey r2 = snapshotKey r1 \<and>
           skippedImages r1 = 1 \<and> skippedImages r2 = 0"
  using example_first_render example_second_render by simp

section \<open>The key of a snapshot\<close>

text \<open>
  Claim C3, as the code has it. The key of the snapshot is a function of the list of
  items: the decimal number of milliseconds of the latest \<open>createdAt\<close> among the items
  whose \<open>createdAt\<close> \<open>Date.parse\<close> reads, and \<open>empty\<close> when there is no such item, as in
  the empty store.
\<close>

theorem snapshot_key_of_parsable_items:
  assumes "getGraffiti e w = (Inr items, w0)" and "generateWallSnapshot e w = (Inr r, w1)"
  shows "snapshotKey r =
           (if parsed_times e items = [] then ''empty''
            else String_of_int (Max (set (parsed_times e items))))"
proof -
  from generateWallSnapshot_Inr [OF assms(2)] assms(1)
  have "snapshotKey r = snapshot_key e items" by auto
  then show ?thesis by (simp only: snapshot_key_latest)
qed

theorem snapshot_key_of_parsable_items_witness:
  "getGraffiti example_env example_world = (Inr [tag_a, sticker, tag_b], example_world) \<and>
   generateWallSnapshot example_env example_world =
     (Inr \<lparr>snapshot_imageUrl = ''/uploads/snapshots/wall-snapshot-1704153600000.png'',
           snapshot_width = 1000, snapshot_height = 800, itemCount = 3, skippedImages = 1,
           fromCache = False, snapshotKey = ''1704153600000''\<rparr>, rendered_world) \<and>
   parsed_times example_env [tag_a, sticker, tag_b] = [1704067200000, 1704067200000, 1704153600000] \<and>
   ''1704153600000'' = String_of_int (Max (set (parsed_times example_env [tag_a, sticker, tag_b])))"
proof -
  have p: "parsed_times example_env [tag_a, sticker, tag_b] =
             [1704067200000, 1704067200000, 1704153600000]"
    by (simp add: parsed_times_def example_env_fields example_Date_parse_def
        tag_a_def tag_b_def sticker_def)
  from snapshot_key_of_parsable_items [OF example_getGraffiti example_first_render]
    example_getGraffiti example_first_render p
  show ?thesis by simp
qed

text \<open>
  A store that is not empty and has the key of the empty store: its one item has a
  \<open>createdAt\<close> that is not a date, which the \<open>reduce\<close> passes over.
\<close>

theorem undated_store_has_sentinel_key:
  "generateWallSnapshot example_env undated_world =
     (Inr \<lparr>snapshot_imageUrl = ''/uploads/snapshots/wall-snapshot-empty.png'',
           snapshot_width = 1000, snapshot_height = 800, itemCount = 1, skippedImages = 0,
           fromCache = False, snapshotKey = ''empty''\<rparr>,
      undated_world\<lparr>composite_calls := 1,
        files := example_files
          (''/app/public/uploads/snapshots/wall-snapshot-empty.png'' \<mapsto> ''PNG1'')\<rparr>) \<and>
   stored_items undated_world = [undated_tag]"
  by (simp add: example_undated_render) (simp add: stored_items_def undated_world_def)

section \<open>Images without a source\<close>

text \<open>
  What the loop does with an image whose source \<open>loadImageSource\<close> does not resolve. Let
  no snapshot be cached for the store, let the background be there with its size, let
  sharp accept every image whose source is resolved, and the composite. Then
  \<open>generateWallSnapshot\<close> returns a snapshot whatever the number of images without a
  source: its count of skipped images is the number of those images, and the file it
  writes is the composite of the overlays of all the other items, in their order.
\<close>

lemma unresolved_images_are_skipped:
  assumes "getGraffiti e w = (Inr items, w0)"
    and "(case files w0 (path_join [SNAPSHOT_DIR e, snapshot_fileName (snapshot_key e items)]) of
            None \<Rightarrow> None | Some bytes \<Rightarrow> sharp_metadata e bytes) = None"
    and "resolveBackgroundPath e w0 = Inr bgPath" and "files w0 bgPath = Some bgBuf"
    and "sharp_metadata e bgBuf = Some md" and "md_width md = Some W" and "md_height md = Some H"
    and "W \<noteq> 0" and "H \<noteq> 0"
    and "\<forall>item\<in>set items. \<forall>err. fst (item_overlay e W H item w0) \<noteq> Failed err"
    and "sharp_composite e bgBuf
           (concat (map (\<lambda>item. case fst (item_overlay e W H item w0) of
                                   Overlay ov \<Rightarrow> [ov] | _ \<Rightarrow> []) items)) = Some out"
  shows "\<exists>r w1. generateWallSnapshot e w = (Inr r, w1) \<and>
           skippedImages r = length (filter (unresolved e w0) items) \<and>
           itemCount r = length items \<and>
           files w1 (path_join [SNAPSHOT_DIR e, snapshot_fileName (snapshot_key e items)]) = Some out"
proof -
  from compose_items_succeeds [OF assms(10), of "[]" 0] obtain ovs k wc where
    co: "compose_items e W H items [] 0 w0 = (Inr (ovs, k), wc)" by blast
  from compose_items_result [OF co] have
    ovs: "ovs = concat (map (\<lambda>item. case fst (item_overlay e W H item w0) of
                                   Overlay ov \<Rightarrow> [ov] | _ \<Rightarrow> []) items)"
    and k: "k = length (filter (unresolved e w0) items)"
    by (simp_all add: item_overlay_Skipped)
  have sc: "sharp_composite e bgBuf ovs = Some out" using assms(11) ovs by simp
  from render_snapshot_succeeds [OF assms(3-9) co sc, of "snapshot_key e items"]
    generateWallSnapshot_miss [OF assms(1,2)] k
  show ?thesis by simp
qed

lemma unresolved_images_are_skipped_example:
  "getGraffiti example_env example_world = (Inr [tag_a, sticker, tag_b], example_world) \<and>
   files example_world ''/app/public/uploads/snapshots/wall-snapshot-1704153600000.png'' = None \<and>
   resolveBackgroundPath example_env example_world = Inr ''/app/public/leftys-bg.png'' \<and>
   files example_world ''/app/public/leftys-bg.png'' = Some ''PNG background'' \<and>
   sharp_metadata example_env ''PNG background'' =
     Some \<lparr>md_width = Some 1000, md_height = Some 800\<rparr> \<and>
   fst (item_overlay example_env 1000 800 tag_a example_world) =
     Overlay (TextOverlay (textOverlaySvg tag_a 1000 800)) \<and>
   fst (item_overlay example_env 1000 800 sticker example_world) = Skipped \<and>
   fst (item_overlay example_env 1000 800 tag_b example_world) =
     Overlay (TextOverlay (textOverlaySvg tag_b 1000 800)) \<and>
   filter (unresolved example_env example_world) [tag_a, sticker, tag_b] = [sticker] \<and>
   (\<exists>r w1. generateWallSnapshot example_env example_world = (Inr r, w1) \<and>
      skippedImages r = 1 \<and> itemCount r = 3 \<and>
      files w1 ''/app/public/uploads/snapshots/wall-snapshot-1704153600000.png'' = Some ''PNG2'')"
proof -
  note g = example_getGraffiti
  have nf: "files example_world ''/app/public/uploads/snapshots/wall-snapshot-1704153600000.png'' = None"
    by (simp add: example_world_def example_files_def)
  have miss: "(case files example_world
                 (path_join [SNAPSHOT_DIR example_env,
                             snapshot_fileName (snapshot_key example_env [tag_a, sticker, tag_b])]) of
            None \<Rightarrow> None | Some bytes \<Rightarrow> sharp_metadata example_env bytes) = None"
    unfolding example_key example_snapshot_path by (simp add: nf)
  have f: "files example_world ''/app/public/leftys-bg.png'' = Some ''PNG background''"
    by (simp add: example_world_def example_files_def)
  note bg = example_bg [OF f]
  note m = example_png_metadata
  have w: "md_width \<lparr>md_width = Some 1000, md_height = Some 800\<rparr> = Some 1000" by simp
  have h: "md_height \<lparr>md_width = Some 1000, md_height = Some 800\<rparr> = Some 800" by simp
  have wz: "(1000::nat) \<noteq> 0" and hz: "(800::nat) \<noteq> 0" by simp_all
  have dec: "\<forall>item\<in>set [tag_a, sticker, tag_b]. \<forall>err.
      fst (item_overlay example_env 1000 800 item example_world) \<noteq> Failed err"
    by (simp add: example_item_overlays)
  have sc: "sharp_composite example_env ''PNG background''
           (concat (map (\<lambda>item. case fst (item_overlay example_env 1000 800 item example_world) of
                                   Overlay ov \<Rightarrow> [ov] | _ \<Rightarrow> []) [tag_a, sticker, tag_b])) = Some ''PNG2''"
    by (simp add: example_item_overlays example_env_fields startsWith_def)
  have u: "filter (unresolved example_env example_world) [tag_a, sticker, tag_b] = [sticker]"
    by (simp add: item_overlay_Skipped [where W = 1000 and H = 800, symmetric] example_item_overlays)
  from unresolved_images_are_skipped [OF g miss bg f m w h wz hz dec sc]
  have "\<exists>r w1. generateWallSnapshot example_env example_world = (Inr r, w1) \<and>
      skippedImages r = 1 \<and> itemCount r = 3 \<and>
      files w1 ''/app/public/uploads/snapshots/wall-snapshot-1704153600000.png'' = Some ''PNG2''"
    unfolding example_key example_snapshot_path u by (simp add: numeral_3_eq_3)
  with g nf bg f m example_item_overlays u show ?thesis by blast
qed

text \<open>
  Claim C4. A snapshot is to be made whatever the images of the store, an image whose
  source is not resolved or whose bytes are not decoded being skipped and counted.
  The code skips the images of the first kind only. The calls of sharp on the bytes
  of an image are in no \<open>try\<close>, so that the error of one image is the error of
  \<open>generateWallSnapshot\<close>. On the empty store of the examples a snapshot is made. One
  call of \<open>spray_image\<close> that the schema accepts, with an \<open>image_blob\<close> that is base64 of
  three zero bytes, answers and stores a sticker; its source is resolved, to these
  bytes, which sharp does not decode. From then on \<open>generateWallSnapshot\<close> fails, at the
  first call and at the next, and writes no snapshot.
\<close>

theorem undecodable_blob_fails_snapshot:
  "generateWallSnapshot example_env empty_store =
     (Inr \<lparr>snapshot_imageUrl = ''/uploads/snapshots/wall-snapshot-empty.png'',
           snapshot_width = 1000, snapshot_height = 800, itemCount = 0, skippedImages = 0,
           fromCache = False, snapshotKey = ''empty''\<rparr>,
      empty_store\<lparr>composite_calls := 1,
        files := example_files
          (''/app/public/uploads/snapshots/wall-snapshot-empty.png'' \<mapsto> ''PNG0'')\<rparr>) \<and>
   spray_image example_env ''id-f'' ''id-x'' ''2024-01-01T00:00:01.000Z'' blob_args empty_store =
     (Inr ''spray_image created id-x'', blob_world) \<and>
   stored_items blob_world = [blob_sticker] \<and>
   fst (loadImageSource example_env ''/uploads/id-f.png'' blob_world) =
     Some [CHR 0x00, CHR 0x00, CHR 0x00] \<and>
   fst (item_overlay example_env 1000 800 blob_sticker blob_world) = Failed (Error ''sharp'') \<and>
   generateWallSnapshot example_env blob_world =
     (Inl (Error ''sharp''), blob_world\<lparr>fs_reads := [''/app/public/uploads/id-f.png'']\<rparr>) \<and>
   generateWallSnapshot example_env
       (blob_world\<lparr>fs_reads := [''/app/public/uploads/id-f.png'']\<rparr>) =
     (Inl (Error ''sharp''),
      blob_world\<lparr>fs_reads := [''/app/public/uploads/id-f.png'',
                              ''/app/public/uploads/id-f.png'']\<rparr>)"
proof -
  have s: "stored_items blob_world = [blob_sticker]"
    by (simp add: stored_items_def blob_world_def)
  have l: "fst (loadImageSource example_env ''/uploads/id-f.png'' blob_world) =
             Some [CHR 0x00, CHR 0x00, CHR 0x00]"
    by (simp add: example_blob_source blob_world_def)
  have i: "fst (item_overlay example_env 1000 800 blob_sticker blob_world) =
             Failed (Error ''sharp'')"
    by (simp add: item_overlay_def blob_sticker_def example_blob_source blob_world_def
        example_env_fields startsWith_def)
  have r1: "generateWallSnapshot example_env blob_world =
     (Inl (Error ''sharp''), blob_world\<lparr>fs_reads := [''/app/public/uploads/id-f.png'']\<rparr>)"
    using example_blob_render [of blob_world] by (simp add: blob_world_def)
  have r2: "generateWallSnapshot example_env
       (blob_world\<lparr>fs_reads := [''/app/public/uploads/id-f.png'']\<rparr>) =
     (Inl (Error ''sharp''),
      blob_world\<lparr>fs_reads := [''/app/public/uploads/id-f.png'',
                              ''/app/public/uploads/id-f.png'']\<rparr>)"
    using example_blob_render [of "blob_world\<lparr>fs_reads := [''/app/public/uploads/id-f.png'']\<rparr>"]
    by (simp add: blob_world_def)
  from example_empty_render example_blob_spray s l i r1 r2 show ?thesis by blast
qed

section \<open>Appending, then listing\<close>

text \<open>
  Claim C5. On a store that can be read, \<open>addGraffiti\<close> returns the record it made of
  its input, and the list \<open>getGraffiti\<close> gives afterwards is the list it gave before
  with that record put in at one place: one new entry, equal to the returned record,
  the entries of before unchanged and in their order.
\<close>

theorem addGraffiti_then_getGraffiti:
  assumes "consistent_comparator (localeCompare e)" and "DATA_FILE w \<noteq> Malformed"
  shows "\<exists>ys zs w1.
           fst (getGraffiti e w) = Inr (ys @ zs) \<and>
           addGraffiti e uuid now item w = (Inr (stamp item uuid now), w1) \<and>
           getGraffiti e w1 = (Inr (ys @ stamp item uuid now # zs), w1)"
proof -
  let ?c = "by_createdAt e"
  let ?S = "Array_sort ?c (stored_items w)"
  let ?n = "stamp item uuid now"
  let ?w1 = "w\<lparr>DATA_FILE := Stored (?S @ [?n])\<rparr>"
  have c: "consistent_comparator ?c"
    using assms(1) by (rule by_createdAt_consistent)
  obtain ys zs where yz: "?S = ys @ zs" "Array_sort ?c (?S @ [?n]) = ys @ ?n # zs"
    using Array_sort_snoc [OF c] by blast
  have g: "getGraffiti e w = (Inr ?S, w\<lparr>DATA_FILE := Stored (stored_items w)\<rparr>)"
    using assms(2) by (rule getGraffiti_readable)
  have a: "addGraffiti e uuid now item w = (Inr ?n, ?w1)"
    by (simp add: addGraffiti_def g Let_def)
  have "getGraffiti e ?w1 = (Inr (Array_sort ?c (?S @ [?n])), ?w1)"
    by (simp add: getGraffiti_def ensureDataFile_def)
  with yz g a show ?thesis by auto
qed

theorem addGraffiti_then_getGraffiti_witness:
  "consistent_comparator (localeCompare example_env) \<and>
   DATA_FILE example_world \<noteq> Malformed \<and>
   (\<exists>ys zs w1.
      fst (getGraffiti example_env example_world) = Inr (ys @ zs) \<and>
      addGraffiti example_env ''id-d'' ''2024-01-01T00:00:01.000Z''
        (NewGraffitiText ''hi'' ''Impact, sans-serif'' ''#111111'' \<lparr>pos_x = 10, pos_y = 10\<rparr> 20 0 1)
        example_world =
        (Inr (stamp (NewGraffitiText ''hi'' ''Impact, sans-serif'' ''#111111''
                \<lparr>pos_x = 10, pos_y = 10\<rparr> 20 0 1) ''id-d'' ''2024-01-01T00:00:01.000Z''), w1) \<and>
      getGraffiti example_env w1 =
        (Inr (ys @ stamp (NewGraffitiText ''hi'' ''Impact, sans-serif'' ''#111111''
                \<lparr>pos_x = 10, pos_y = 10\<rparr> 20 0 1) ''id-d'' ''2024-01-01T00:00:01.000Z'' # zs), w1))"
proof -
  have c: "consistent_comparator (localeCompare example_env)"
    using cu_consistent by (simp add: example_env_def)
  have d: "DATA_FILE example_world \<noteq> Malformed"
    by (simp add: example_world_def)
  from addGraffiti_then_getGraffiti [OF c d] c d show ?thesis by blast
qed

section \<open>The order of the list\<close>

text \<open>
  Claim C6. When \<open>getGraffiti\<close> returns a list, the list is in ascending order of
  \<open>createdAt\<close>, as \<open>localeCompare\<close> orders the timestamps; it holds the items of the file,
  each as often as the file does; and the items of one timestamp (those that compare
  equal to it) stand in the order they have in the file. The file keeps the order of
  the appends among such items: after calls of \<open>addGraffiti\<close> in turn on an empty
  store, the items of one timestamp are listed in the order in which they were
  appended.
\<close>

theorem getGraffiti_sorted_stable:
  assumes "consistent_comparator (localeCompare e)"
  shows "(getGraffiti e w = (Inr listed, w1) \<longrightarrow>
           sorted_wrt (\<lambda>a b. localeCompare e (createdAt a) (createdAt b) \<le> 0) listed \<and>
           mset listed = mset (stored_items w) \<and>
           (\<forall>t. filter (\<lambda>i. localeCompare e t (createdAt i) = 0) listed =
                filter (\<lambda>i. localeCompare e t (createdAt i) = 0) (stored_items w))) \<and>
         (DATA_FILE w = Absent \<or> DATA_FILE w = Stored [] \<longrightarrow>
           (\<exists>after w2.
              getGraffiti e (addGraffiti_each e inputs w) = (Inr after, w2) \<and>
              (\<forall>t. filter (\<lambda>i. localeCompare e t (createdAt i) = 0) after =
                   filter (\<lambda>i. localeCompare e t (createdAt i) = 0)
                     (map (\<lambda>(uuid, now, item). stamp item uuid now) inputs))))"
proof -
  have c: "consistent_comparator (by_createdAt e)"
    using assms by (rule by_createdAt_consistent)
  have 1: "sorted_wrt (\<lambda>a b. localeCompare e (createdAt a) (createdAt b) \<le> 0) listed \<and>
           mset listed = mset (stored_items w) \<and>
           (\<forall>t. filter (\<lambda>i. localeCompare e t (createdAt i) = 0) listed =
                filter (\<lambda>i. localeCompare e t (createdAt i) = 0) (stored_items w))"
    if g: "getGraffiti e w = (Inr listed, w1)"
  proof -
    have l: "listed = Array_sort (by_createdAt e) (stored_items w)"
      using getGraffiti_Inr [OF g] by simp
    have "sorted_wrt (\<lambda>a b. by_createdAt e a b \<le> 0) listed"
      unfolding l by (rule sorted_Array_sort [OF c])
    then have s: "sorted_wrt (\<lambda>a b. localeCompare e (createdAt a) (createdAt b) \<le> 0) listed"
      by (simp add: by_createdAt_def)
    have m: "mset listed = mset (stored_items w)"
      unfolding l by (rule mset_Array_sort)
    have "filter (\<lambda>i. localeCompare e t (createdAt i) = 0) listed =
          filter (\<lambda>i. localeCompare e t (createdAt i) = 0) (stored_items w)" for t
      unfolding l by (rule Array_sort_ties [OF assms])
    with s m show ?thesis by blast
  qed
  have 2: "\<exists>after w2.
              getGraffiti e (addGraffiti_each e inputs w) = (Inr after, w2) \<and>
              (\<forall>t. filter (\<lambda>i. localeCompare e t (createdAt i) = 0) after =
                   filter (\<lambda>i. localeCompare e t (createdAt i) = 0)
                     (map (\<lambda>(uuid, now, item). stamp item uuid now) inputs))"
    if h: "DATA_FILE w = Absent \<or> DATA_FILE w = Stored []"
  proof -
    let ?w = "addGraffiti_each e inputs w"
    have r: "DATA_FILE w \<noteq> Malformed" and s: "stored_items w = []"
      using h by (auto simp add: stored_items_def)
    have r1: "DATA_FILE ?w \<noteq> Malformed"
      using addGraffiti_each_mset [OF r, of e inputs] by simp
    have g: "getGraffiti e ?w = (Inr (Array_sort (by_createdAt e) (stored_items ?w)),
                                 ?w\<lparr>DATA_FILE := Stored (stored_items ?w)\<rparr>)"
      using r1 by (rule getGraffiti_readable)
    have "filter (\<lambda>i. localeCompare e t (createdAt i) = 0)
            (Array_sort (by_createdAt e) (stored_items ?w)) =
          filter (\<lambda>i. localeCompare e t (createdAt i) = 0)
            (map (\<lambda>(uuid, now, item). stamp item uuid now) inputs)" for t
      using addGraffiti_each_ties [OF assms r, of t inputs]
      by (simp add: Array_sort_ties [OF assms] s)
    with g show ?thesis by blast
  qed
  from 1 2 show ?thesis by blast
qed

theorem getGraffiti_sorted_stable_witness:
  "consistent_comparator (localeCompare example_env) \<and>
   getGraffiti example_env example_world = (Inr [tag_a, sticker, tag_b], example_world) \<and>
   sorted_wrt (\<lambda>a b. localeCompare example_env (createdAt a) (createdAt b) \<le> 0)
     [tag_a, sticker, tag_b] \<and>
   mset [tag_a, sticker, tag_b] = mset (stored_items example_world) \<and>
   (\<forall>t. filter (\<lambda>i. localeCompare example_env t (createdAt i) = 0) [tag_a, sticker, tag_b] =
        filter (\<lambda>i. localeCompare example_env t (createdAt i) = 0) (stored_items example_world)) \<and>
   (DATA_FILE empty_store = Absent \<or> DATA_FILE empty_store = Stored []) \<and>
   (\<exists>after w2.
      getGraffiti example_env
        (addGraffiti_each example_env two_inputs empty_store) = (Inr after, w2) \<and>
      (\<forall>t. filter (\<lambda>i. localeCompare example_env t (createdAt i) = 0) after =
           filter (\<lambda>i. localeCompare example_env t (createdAt i) = 0) [first_tag, second_tag]))"
proof -
  have c: "consistent_comparator (localeCompare example_env)"
    using cu_consistent by (simp add: example_env_fields)
  note g = example_getGraffiti
  have d: "DATA_FILE empty_store = Absent \<or> DATA_FILE empty_store = Stored []"
    by (simp add: empty_store_def)
  note a = getGraffiti_sorted_stable [OF c, THEN conjunct1, THEN mp, OF g]
  note b = getGraffiti_sorted_stable [OF c, THEN conjunct2, THEN mp, OF d,
      of two_inputs]
  have "map (\<lambda>(uuid, now, item). stamp item uuid now) two_inputs =
          [first_tag, second_tag]"
    by (simp add: two_inputs_def first_tag_def second_tag_def)
  with b have b1: "\<exists>after w2.
      getGraffiti example_env
        (addGraffiti_each example_env two_inputs empty_store) = (Inr after, w2) \<and>
      (\<forall>t. filter (\<lambda>i. localeCompare example_env t (createdAt i) = 0) after =
           filter (\<lambda>i. localeCompare example_env t (createdAt i) = 0) [first_tag, second_tag])"
    by (simp only:)
  from a b1 c g d show ?thesis by blast
qed

section \<open>Fractions become percentages\<close>

text \<open>
  Claim C7. When \<open>spray_text\<close> or \<open>spray_image\<close> answers, the item it appended to the
  store has the position it was given, both components times 100 when both are at
  least 0 and less than 1, and both as given otherwise; \<open>spray_image\<close> does the same,
  on its own, with the two dimensions. The product is the one of doubles, \<open>js_times\<close>:
  the double nearest to the product of the two numbers. So the position
  \<open>{x: 0.5, y: 0.5}\<close> is stored as \<open>{x: 50, y: 50}\<close>, and a component 0.07 as the double
  after 7 (\<open>js_times_seven_hundredths\<close>).
\<close>

theorem spray_tools_store_normalized_pairs:
  "(spray_text e uuid now ta w = (Inr msg, w1) \<longrightarrow>
      (\<exists>it. stored_items w1 = Array_sort (by_createdAt e) (stored_items w) @ [it] \<and>
            item_id it = uuid \<and>
            position it =
              (if 0 \<le> pos_x (st_position ta) \<and> pos_x (st_position ta) < 1 \<and>
                  0 \<le> pos_y (st_position ta) \<and> pos_y (st_position ta) < 1
               then \<lparr>pos_x = js_times (pos_x (st_position ta)) 100,
                  pos_y = js_times (pos_y (st_position ta)) 100\<rparr>
               else st_position ta))) \<and>
   (spray_image e file_uuid uuid now ia w = (Inr msg, w1) \<longrightarrow>
      (\<exists>it. stored_items w1 = Array_sort (by_createdAt e) (stored_items w) @ [it] \<and>
            item_id it = uuid \<and>
            position it =
              (if 0 \<le> pos_x (si_position ia) \<and> pos_x (si_position ia) < 1 \<and>
                  0 \<le> pos_y (si_position ia) \<and> pos_y (si_position ia) < 1
               then \<lparr>pos_x = js_times (pos_x (si_position ia)) 100,
                  pos_y = js_times (pos_y (si_position ia)) 100\<rparr>
               else si_position ia) \<and>
            dimensions it =
              (if 0 \<le> dim_width (si_dimensions ia) \<and> dim_width (si_dimensions ia) < 1 \<and>
                  0 \<le> dim_height (si_dimensions ia) \<and> dim_height (si_dimensions ia) < 1
               then \<lparr>dim_width = js_times (dim_width (si_dimensions ia)) 100,
                     dim_height = js_times (dim_height (si_dimensions ia)) 100\<rparr>
               else si_dimensions ia)))"
  using spray_text_stored spray_image_stored by blast

theorem spray_tools_store_normalized_pairs_witness:
  "(\<exists>it. stored_items (snd (spray_text example_env ''id-d'' ''2024-01-01T00:00:01.000Z''
                               example_text_args example_world)) =
           Array_sort (by_createdAt example_env) (stored_items example_world) @ [it] \<and>
         item_id it = ''id-d'' \<and> position it = \<lparr>pos_x = 30, pos_y = 1 / 2\<rparr>) \<and>
   (\<exists>it. stored_items (snd (spray_image example_env ''id-f'' ''id-e'' ''2024-01-01T00:00:01.000Z''
                               example_image_args example_world)) =
           Array_sort (by_createdAt example_env) (stored_items example_world) @ [it] \<and>
         item_id it = ''id-e'' \<and> position it = \<lparr>pos_x = 50, pos_y = 50\<rparr> \<and>
         dimensions it = \<lparr>dim_width = 24, dim_height = 24\<rparr>)"
proof -
  note t = spray_tools_store_normalized_pairs [THEN conjunct1, THEN mp, OF example_spray_text]
  note i = spray_tools_store_normalized_pairs [THEN conjunct2, THEN mp, OF example_spray_image]
  have "\<exists>it. stored_items (snd (spray_text example_env ''id-d'' ''2024-01-01T00:00:01.000Z''
                               example_text_args example_world)) =
           Array_sort (by_createdAt example_env) (stored_items example_world) @ [it] \<and>
         item_id it = ''id-d'' \<and> position it = \<lparr>pos_x = 30, pos_y = 1 / 2\<rparr>"
    using t unfolding example_spray_text snd_conv by (simp add: example_text_args_def)
  moreover have "\<exists>it. stored_items (snd (spray_image example_env ''id-f'' ''id-e'' ''2024-01-01T00:00:01.000Z''
                               example_image_args example_world)) =
           Array_sort (by_createdAt example_env) (stored_items example_world) @ [it] \<and>
         item_id it = ''id-e'' \<and> position it = \<lparr>pos_x = 50, pos_y = 50\<rparr> \<and>
         dimensions it = \<lparr>dim_width = 24, dim_height = 24\<rparr>"
    using i unfolding example_spray_image snd_conv
    by (simp add: example_image_args_def js_times_half)
  ultimately show ?thesis by blast
qed

section \<open>Local sources stay under the public root\<close>

text \<open>
  Claim C8. A source that starts with a slash and whose resolved path does not start
  with the public root and a separator is rejected: \<open>loadImageSource\<close> returns \<open>null\<close>
  without reading a file, and the item is skipped. So every path that
  \<open>generateWallSnapshot\<close> gives to \<open>fs.readFile\<close> for a source starts with the public root
  and a separator and has no segment \<open>..\<close>.
\<close>

theorem local_sources_stay_under_public_root:
  assumes "isAbsolute (cwd e)"
  shows "(startsWith url ''/'' \<and>
          \<not> startsWith (path_resolve e [PUBLIC_DIR e, dropWhile (\<lambda>c. c = CHR ''/'') url])
                        (path_resolve e [PUBLIC_DIR e] @ ''/'') \<longrightarrow>
            loadImageSource e url w = (None, w) \<and>
            item_overlay e W H (GraffitiImage i url pos dims rot opa created) w = (Skipped, w)) \<and>
         (generateWallSnapshot e w = (res, w1) \<longrightarrow>
            (\<exists>new. fs_reads w1 = fs_reads w @ new \<and> (\<forall>p\<in>set new. confined e p)))"
  using escaping_source_rejected generateWallSnapshot_reads [OF assms] by blast

theorem local_sources_stay_under_public_root_witness:
  "isAbsolute (cwd example_env) \<and>
   startsWith ''/../data/graffiti.json'' ''/'' \<and>
   path_resolve example_env [PUBLIC_DIR example_env,
                             dropWhile (\<lambda>c. c = CHR ''/'') ''/../data/graffiti.json''] =
     ''/app/data/graffiti.json'' \<and>
   \<not> startsWith ''/app/data/graffiti.json'' (path_resolve example_env [PUBLIC_DIR example_env] @ ''/'') \<and>
   loadImageSource example_env ''/../data/graffiti.json'' example_world = (None, example_world) \<and>
   item_overlay example_env 1000 800 traversal_sticker example_world = (Skipped, example_world) \<and>
   generateWallSnapshot example_env example_world =
     (Inr \<lparr>snapshot_imageUrl = ''/uploads/snapshots/wall-snapshot-1704153600000.png'',
           snapshot_width = 1000, snapshot_height = 800, itemCount = 3, skippedImages = 1,
           fromCache = False, snapshotKey = ''1704153600000''\<rparr>, rendered_world) \<and>
   (\<exists>new. fs_reads rendered_world = fs_reads example_world @ new \<and>
          (\<forall>p\<in>set new. confined example_env p))"
proof -
  have a: "isAbsolute (cwd example_env)"
    by (simp add: isAbsolute_def startsWith_def example_env_fields)
  have s: "startsWith ''/../data/graffiti.json'' ''/''" by (simp add: startsWith_def)
  have n: "\<not> startsWith ''/app/data/graffiti.json''
               (path_resolve example_env [PUBLIC_DIR example_env] @ ''/'')"
    by (simp add: example_dirs example_root startsWith_def)
  have h1: "startsWith ''/../data/graffiti.json'' ''/'' \<and>
            \<not> startsWith (path_resolve example_env [PUBLIC_DIR example_env,
                             dropWhile (\<lambda>c. c = CHR ''/'') ''/../data/graffiti.json''])
                (path_resolve example_env [PUBLIC_DIR example_env] @ ''/'')"
    using s n unfolding example_traversal_path by simp
  note t1 = local_sources_stay_under_public_root [OF a, THEN conjunct1, THEN mp, OF h1]
  note t2 = local_sources_stay_under_public_root [OF a, THEN conjunct2, THEN mp, OF example_first_render]
  have i: "item_overlay example_env 1000 800 traversal_sticker example_world = (Skipped, example_world)"
    unfolding traversal_sticker_def using t1 by blast
  have l: "loadImageSource example_env ''/../data/graffiti.json'' example_world = (None, example_world)"
    using t1 by blast
  from a s example_traversal_path n l i example_first_render t2 show ?thesis by blast
qed

section \<open>Sessions are made by initialization only\<close>

text \<open>
  Claim C9. A request that is not an \<open>initialize\<close> request and whose session id is
  missing (no header, or an empty one) or is not the id of a registered transport is
  answered with status 400, on each of the three routes, and leaves the registry as it
  was. A request after which the registry holds a session id it did not hold before
  is a \<open>POST\<close> of an \<open>initialize\<close> request, and the id is the one just generated.
\<close>

theorem session_only_by_initialize:
  "((mcp_session_id req = None \<or> mcp_session_id req = Some [] \<or>
     (\<exists>sid. mcp_session_id req = Some sid \<and> transports reg sid = None)) \<and>
    \<not> isInitializeRequest req \<longrightarrow>
      client_error (fst (mcp_route k uuid req reg)) \<and> snd (mcp_route k uuid req reg) = reg) \<and>
   (transports (snd (mcp_route k uuid req reg)) sid \<noteq> None \<and> transports reg sid = None \<longrightarrow>
      http_method req = POST \<and> isInitializeRequest req \<and> sid = uuid)"
proof -
  have 1: "client_error (fst (mcp_route k uuid req reg)) \<and> snd (mcp_route k uuid req reg) = reg"
    if h: "(mcp_session_id req = None \<or> mcp_session_id req = Some [] \<or>
            (\<exists>sid. mcp_session_id req = Some sid \<and> transports reg sid = None)) \<and>
           \<not> isInitializeRequest req"
  proof -
    from h have "lookup_transport reg req = None" using lookup_transport_None by blast
    with h show ?thesis using mcp_route_rejects by blast
  qed
  have 2: "http_method req = POST \<and> isInitializeRequest req \<and> sid = uuid"
    if h: "transports (snd (mcp_route k uuid req reg)) sid \<noteq> None \<and> transports reg sid = None"
  proof (cases "http_method req")
    case POST
    with h show ?thesis using post_mcp_new_session [of k uuid req reg sid]
      by (simp add: mcp_route_def)
  next
    case GET
    with h show ?thesis using get_mcp_no_new_session [of k req reg sid]
      by (simp add: mcp_route_def)
  next
    case DELETE
    with h show ?thesis using delete_mcp_no_new_session [of k req reg sid]
      by (simp add: mcp_route_def)
  qed
  from 1 2 show ?thesis by blast
qed

theorem session_only_by_initialize_witness:
  "((mcp_session_id \<lparr>http_method = POST, mcp_session_id = Some ''s2'', isInitializeRequest = False\<rparr> = None \<or>
     mcp_session_id \<lparr>http_method = POST, mcp_session_id = Some ''s2'', isInitializeRequest = False\<rparr> = Some [] \<or>
     (\<exists>sid. mcp_session_id \<lparr>http_method = POST, mcp_session_id = Some ''s2'', isInitializeRequest = False\<rparr> = Some sid \<and>
            transports example_registry sid = None)) \<and>
    \<not> isInitializeRequest \<lparr>http_method = POST, mcp_session_id = Some ''s2'', isInitializeRequest = False\<rparr>) \<and>
   mcp_route example_sdk ''s3''
      \<lparr>http_method = POST, mcp_session_id = Some ''s2'', isInitializeRequest = False\<rparr> example_registry =
     (Status400_json ''Client must send initialize request first'', example_registry) \<and>
   transports (snd (mcp_route example_sdk ''s3''
      \<lparr>http_method = POST, mcp_session_id = None, isInitializeRequest = True\<rparr> example_registry)) ''s3'' \<noteq> None \<and>
   transports example_registry ''s3'' = None \<and>
   http_method \<lparr>http_method = POST, mcp_session_id = None, isInitializeRequest = True\<rparr> = POST \<and>
   isInitializeRequest \<lparr>http_method = POST, mcp_session_id = None, isInitializeRequest = True\<rparr>"
proof -
  let ?bad = "\<lparr>http_method = POST, mcp_session_id = Some ''s2'', isInitializeRequest = False\<rparr>"
  let ?init = "\<lparr>http_method = POST, mcp_session_id = None, isInitializeRequest = True\<rparr>"
  have h1: "(mcp_session_id ?bad = None \<or> mcp_session_id ?bad = Some [] \<or>
             (\<exists>sid. mcp_session_id ?bad = Some sid \<and> transports example_registry sid = None)) \<and>
            \<not> isInitializeRequest ?bad"
    by (simp add: example_registry_def)
  have r: "mcp_route example_sdk ''s3'' ?bad example_registry =
             (Status400_json ''Client must send initialize request first'', example_registry)"
    by (simp add: mcp_route_def post_mcp_def lookup_transport_def example_registry_def)
  have h2: "transports (snd (mcp_route example_sdk ''s3'' ?init example_registry)) ''s3'' \<noteq> None \<and>
            transports example_registry ''s3'' = None"
    by (simp add: mcp_route_def post_mcp_def lookup_transport_def example_registry_def
        example_sdk_def Let_def)
  from session_only_by_initialize [THEN conjunct1, THEN mp, OF h1]
    session_only_by_initialize [THEN conjunct2, THEN mp, OF h2]
    h1 r h2
  show ?thesis by blast
qed

section \<open>What a cached snapshot reports\<close>

text \<open>
  Claim C10. A result of \<open>generateWallSnapshot\<close> that is marked \<open>fromCache\<close> has
  \<open>skippedImages = 0\<close> and, as \<open>itemCount\<close>, the number of items the store holds at the
  call; neither is read from the snapshot. In the example the snapshot was rendered
  with one image skipped, and the second call reports none.
\<close>

theorem cache_hit_reports_zero_skipped:
  assumes "generateWallSnapshot e w = (Inr r, w1)" and "fromCache r"
  shows "skippedImages r = 0 \<and> itemCount r = length (stored_items w)"
proof -
  from generateWallSnapshot_Inr [OF assms(1)] obtain items w0 where
    g: "getGraffiti e w = (Inr items, w0)" and c: "itemCount r = length items"
    and k: "fromCache r \<longrightarrow> skippedImages r = 0"
    by blast
  from k assms(2) c length_getGraffiti [OF g] show ?thesis by simp
qed

theorem cache_hit_reports_zero_skipped_witness:
  "generateWallSnapshot example_env example_world =
     (Inr \<lparr>snapshot_imageUrl = ''/uploads/snapshots/wall-snapshot-1704153600000.png'',
           snapshot_width = 1000, snapshot_height = 800, itemCount = 3, skippedImages = 1,
           fromCache = False, snapshotKey = ''1704153600000''\<rparr>, rendered_world) \<and>
   generateWallSnapshot example_env rendered_world =
     (Inr \<lparr>snapshot_imageUrl = ''/uploads/snapshots/wall-snapshot-1704153600000.png'',
           snapshot_width = 1000, snapshot_height = 800, itemCount = 3, skippedImages = 0,
           fromCache = True, snapshotKey = ''1704153600000''\<rparr>, rendered_world) \<and>
   length (stored_items rendered_world) = 3"
proof -
  have c: "fromCache \<lparr>snapshot_imageUrl = ''/uploads/snapshots/wall-snapshot-1704153600000.png'',
           snapshot_width = 1000, snapshot_height = 800, itemCount = 3, skippedImages = 0,
           fromCache = True, snapshotKey = ''1704153600000''\<rparr>" by simp
  from cache_hit_reports_zero_skipped [OF example_second_render c] example_first_render
    example_second_render
  show ?thesis by simp
qed

end
